theory Spec2Isabelle
  imports Main "HOL-Library.AList"
begin

section \<open>joinTMX: merging tile maps into one composite map\<close>

text \<open>
  A shallow embedding of \<^verbatim>\<open>joinTMX.py\<close>: the class \<^verbatim>\<open>ParseMap\<close> (the loader), the
  class \<^verbatim>\<open>BigMap\<close> (the composite and its \<^verbatim>\<open>putMap\<close> and \<^verbatim>\<open>reMap\<close> methods) and the
  joining loop of \<^verbatim>\<open>main\<close>.

  Conventions of the model.
  \<^item> A Python exception is a value \<open>Inl e\<close> of the result type \<open>error + 'a\<close>; the state
    a method had mutated before it raised is dropped, as \<^verbatim>\<open>main\<close> catches nothing.
  \<^item> A Python \<^verbatim>\<open>dict\<close> is an association list; the order of the list is the order in
    which Python iterates over the dict. Keys obtained with \<^verbatim>\<open>Element.get\<close> have type
    \<open>string option\<close>, where \<open>None\<close> is Python's \<^verbatim>\<open>None\<close>.
  \<^item> A numpy array of at most two dimensions is the list of its rows (a one-dimensional
    array of \<open>k\<close> cells is the single row of its cells). The cells are \<^verbatim>\<open>float64\<close> values
    in the source; the model covers the integer-valued ones, on which negation, absolute
    value and comparison are exact, and has them as \<open>int\<close>. Where the decoder of the
    loader would produce another value (\<^verbatim>\<open>nan\<close>, a fraction), the model returns the mark
    \<open>NotAnInteger\<close>, which stands for no exception of the source.
\<close>

datatype error = ValueError | TypeError | KeyError | IndexError | AttributeError | NotAnInteger

type_synonym grid = "int list list"

type_synonym attribs = "(string \<times> string) list"

subsection \<open>Python's \<^verbatim>\<open>int()\<close> and \<^verbatim>\<open>str()\<close> on decimal strings\<close>

definition digit_chars :: string where
  "digit_chars = ''0123456789''"

definition is_digit :: "char \<Rightarrow> bool" where
  "is_digit c = (c \<in> set digit_chars)"

fun index_from :: "'a list \<Rightarrow> 'a \<Rightarrow> nat" where
  "index_from [] v = 0"
| "index_from (x # xs) v = (if x = v then 0 else Suc (index_from xs v))"

definition digit_val :: "char \<Rightarrow> nat" where
  "digit_val c = index_from digit_chars c"

definition digits_val :: "string \<Rightarrow> nat" where
  "digits_val s = foldl (\<lambda>a c. 10 * a + digit_val c) 0 s"

function digits :: "nat \<Rightarrow> string" where
  "digits n = (if n < 10 then [digit_chars ! n] else digits (n div 10) @ [digit_chars ! (n mod 10)])"
  by pat_completeness auto
termination
  by (relation "measure id") auto

declare digits.simps [simp del]

definition py_str :: "int \<Rightarrow> string" where
  "py_str i = (if i < 0 then CHR ''-'' # digits (nat (- i)) else digits (nat i))"

definition is_space :: "char \<Rightarrow> bool" where
  "is_space c = (c \<in> set [CHR '' '', CHR 0x09, CHR 0x0A, CHR 0x0B, CHR 0x0C, CHR 0x0D])"

definition strip :: "string \<Rightarrow> string" where
  "strip s = rev (dropWhile is_space (rev (dropWhile is_space s)))"

definition unsigned_int :: "string \<Rightarrow> error + int" where
  "unsigned_int ds = (if ds \<noteq> [] \<and> list_all is_digit ds then Inr (int (digits_val ds)) else Inl ValueError)"

text \<open>
  \<^verbatim>\<open>int(s)\<close> for a string: surrounding white space is dropped, then an optional sign
  and at least one decimal digit are read; any other text raises \<^verbatim>\<open>ValueError\<close>.
\<close>

definition py_int :: "string \<Rightarrow> error + int" where
  "py_int s =
     (case strip s of
        [] \<Rightarrow> Inl ValueError
      | c # ds \<Rightarrow>
          if c = CHR ''-'' then (case unsigned_int ds of Inl e \<Rightarrow> Inl e | Inr v \<Rightarrow> Inr (- v))
          else if c = CHR ''+'' then unsigned_int ds
          else unsigned_int (c # ds))"

text \<open>\<^verbatim>\<open>int(v)\<close> for the result of \<^verbatim>\<open>Element.get\<close>: \<^verbatim>\<open>int(None)\<close> raises \<^verbatim>\<open>TypeError\<close>.\<close>

definition py_int_opt :: "string option \<Rightarrow> error + int" where
  "py_int_opt v = (case v of None \<Rightarrow> Inl TypeError | Some s \<Rightarrow> py_int s)"

subsection \<open>Grids\<close>

definition MAX_TILES :: int where
  "MAX_TILES = 512"

definition nrows :: "grid \<Rightarrow> nat" where
  "nrows g = length g"

text \<open>The shape of a grid; a grid with no row is taken to have no column.\<close>

definition ncols :: "grid \<Rightarrow> nat" where
  "ncols g = (case g of [] \<Rightarrow> 0 | r # _ \<Rightarrow> length r)"

text \<open>\<^verbatim>\<open>numpy.zeros((h, w))\<close>: a negative dimension raises \<^verbatim>\<open>ValueError\<close>.\<close>

definition np_zeros :: "int \<Rightarrow> int \<Rightarrow> error + grid" where
  "np_zeros h w = (if h < 0 \<or> w < 0 then Inl ValueError else Inr (replicate (nat h) (replicate (nat w) 0)))"

definition negate :: "grid \<Rightarrow> grid" where
  "negate g = map (map uminus) g"

definition absolute :: "grid \<Rightarrow> grid" where
  "absolute g = map (map abs) g"

text \<open>
  \<^verbatim>\<open>outArray[inArray == oldVal] = newVal\<close>: the mask is taken on \<open>inArray\<close>, the
  assignment is made in \<open>outArray\<close>, which has the shape of \<open>inArray\<close>.
\<close>

definition assign_where :: "grid \<Rightarrow> int \<Rightarrow> int \<Rightarrow> grid \<Rightarrow> grid" where
  "assign_where inArray oldVal newVal outArray =
     map2 (\<lambda>irow orow. map2 (\<lambda>i out. if i = oldVal then newVal else out) irow orow) inArray outArray"

text \<open>
  \<^verbatim>\<open>BigMap.reMap\<close>. The rule is the dict \<^verbatim>\<open>{-(iVal+i): fVal+i for i in range(n)}\<close>; its
  keys are pairwise distinct, so the masks of the loop are disjoint and the order in which
  Python iterates over the dict does not show in the result. The model takes the order
  of \<^verbatim>\<open>range(n)\<close>.
\<close>

definition rule_of :: "int \<Rightarrow> int \<Rightarrow> int \<Rightarrow> (int \<times> int) list" where
  "rule_of iVal fVal n = map (\<lambda>i. (- (iVal + i), fVal + i)) [0..n - 1]"

definition reMap :: "grid \<Rightarrow> int \<Rightarrow> int \<Rightarrow> int \<Rightarrow> grid" where
  "reMap inArray iVal fVal n =
     foldl (\<lambda>outArray (oldVal, newVal). assign_where inArray oldVal newVal outArray)
       inArray (rule_of iVal fVal n)"

subsection \<open>Numpy slice assignment\<close>

text \<open>
  One bound of a Python slice on an axis of length \<open>n\<close>: a negative bound counts from
  the end, and every bound is clipped to the axis.
\<close>

definition slice_index :: "int \<Rightarrow> nat \<Rightarrow> nat" where
  "slice_index i n = (if i < 0 then nat (max (i + int n) 0) else nat (min i (int n)))"

text \<open>
  Broadcasting a source to the shape \<open>(dh, dw)\<close> of the slice: an axis on which the source
  has the length of the slice is kept, an axis of length 1 is repeated.
\<close>

definition broadcast_row :: "nat \<Rightarrow> int list \<Rightarrow> int list" where
  "broadcast_row dw row = (if length row = dw then row else concat (replicate dw row))"

definition broadcast :: "nat \<Rightarrow> nat \<Rightarrow> grid \<Rightarrow> grid" where
  "broadcast dh dw src = map (broadcast_row dw) (if nrows src = dh then src else concat (replicate dh src))"

text \<open>
  \<^verbatim>\<open>dest[r_lo:r_hi, c_lo:c_hi] = src\<close>: the slice is clipped to \<open>dest\<close>; a source
  whose shape is not the shape of the slice, and cannot be broadcast to it (an axis of
  length 1 is repeated), raises \<^verbatim>\<open>ValueError\<close>.
\<close>

definition set_slice :: "grid \<Rightarrow> int \<Rightarrow> int \<Rightarrow> int \<Rightarrow> int \<Rightarrow> grid \<Rightarrow> error + grid" where
  "set_slice dest r_lo r_hi c_lo c_hi src =
     (let r0 = slice_index r_lo (nrows dest); r1 = slice_index r_hi (nrows dest);
          c0 = slice_index c_lo (ncols dest); c1 = slice_index c_hi (ncols dest);
          dh = r1 - r0; dw = c1 - c0
      in if (nrows src = dh \<or> nrows src = 1) \<and> (ncols src = dw \<or> ncols src = 1)
         then Inr (take r0 dest
                   @ map2 (\<lambda>drow srow. take c0 drow @ srow @ drop (c0 + dw) drow)
                       (take dh (drop r0 dest)) (broadcast dh dw src)
                   @ drop (r0 + dh) dest)
         else Inl ValueError)"

subsection \<open>Loops that may raise\<close>

fun fold_err :: "('a \<Rightarrow> 's \<Rightarrow> error + 's) \<Rightarrow> 'a list \<Rightarrow> 's \<Rightarrow> error + 's" where
  "fold_err f [] s = Inr s"
| "fold_err f (x # xs) s = (case f x s of Inl e \<Rightarrow> Inl e | Inr s' \<Rightarrow> fold_err f xs s')"

fun map_err :: "('a \<Rightarrow> error + 'b) \<Rightarrow> 'a list \<Rightarrow> error + 'b list" where
  "map_err f [] = Inr []"
| "map_err f (x # xs) =
     (case f x of Inl e \<Rightarrow> Inl e
      | Inr y \<Rightarrow> (case map_err f xs of Inl e \<Rightarrow> Inl e | Inr ys \<Rightarrow> Inr (y # ys)))"

text \<open>\<^verbatim>\<open>list.index(v)\<close>: the first position of \<open>v\<close>, \<^verbatim>\<open>ValueError\<close> when there is none.\<close>

fun list_index :: "int list \<Rightarrow> int \<Rightarrow> error + nat" where
  "list_index [] v = Inl ValueError"
| "list_index (x # xs) v =
     (if x = v then Inr 0 else (case list_index xs v of Inl e \<Rightarrow> Inl e | Inr i \<Rightarrow> Inr (Suc i)))"

definition list_get :: "int list \<Rightarrow> nat \<Rightarrow> error + int" where
  "list_get xs i = (if i < length xs then Inr (xs ! i) else Inl IndexError)"

definition endswith :: "string \<Rightarrow> string \<Rightarrow> bool" where
  "endswith s suffix = (length suffix \<le> length s \<and> drop (length s - length suffix) s = suffix)"

subsection \<open>XML elements\<close>

text \<open>
  An \<^verbatim>\<open>xml.etree.ElementTree.Element\<close>: tag, attribute dict, text and children, with
  the queries the loader makes.
\<close>

datatype element =
  Element (el_tag: string) (el_attrib: attribs) (el_text: "string option") (el_children: "element list")

definition get :: "element \<Rightarrow> string \<Rightarrow> string option" where
  "get e k = map_of (el_attrib e) k"

definition attrib_item :: "element \<Rightarrow> string \<Rightarrow> error + string" where
  "attrib_item e k = (case map_of (el_attrib e) k of None \<Rightarrow> Inl KeyError | Some v \<Rightarrow> Inr v)"

definition set_attrib :: "element \<Rightarrow> string \<Rightarrow> string \<Rightarrow> element" where
  "set_attrib e k v = Element (el_tag e) (AList.update k v (el_attrib e)) (el_text e) (el_children e)"

definition findall :: "element \<Rightarrow> string \<Rightarrow> element list" where
  "findall e t = filter (\<lambda>c. el_tag c = t) (el_children e)"

definition find_child :: "element \<Rightarrow> string \<Rightarrow> element option" where
  "find_child e t = List.find (\<lambda>c. el_tag c = t) (el_children e)"

fun iter_all :: "element \<Rightarrow> element list" where
  "iter_all (Element t a x cs) = Element t a x cs # concat (map iter_all cs)"

definition iter :: "element \<Rightarrow> string \<Rightarrow> element list" where
  "iter e t = filter (\<lambda>c. el_tag c = t) (iter_all e)"

subsection \<open>The two classes\<close>

text \<open>
  The fields of a \<^verbatim>\<open>ParseMap\<close> instance (prefix \<open>pm_\<close>) and of a \<^verbatim>\<open>BigMap\<close>
  instance (prefix \<open>bm_\<close>). A layer name is \<^verbatim>\<open>layer.get('name')\<close>, a tileset path
  \<^verbatim>\<open>tileSet.get('source')\<close> and its first gid \<^verbatim>\<open>tileSet.get('firstgid')\<close>, so each can
  be \<open>None\<close> in a \<^verbatim>\<open>ParseMap\<close>.

  \<^verbatim>\<open>BigMap.tileSets\<close> maps a path to the string \<^verbatim>\<open>str(n)\<close> of its first gid and is read
  back with \<^verbatim>\<open>int\<close> only; nothing else writes it. The model stores the integer \<open>n\<close>
  itself (lemma \<open>py_int_py_str\<close> below: \<^verbatim>\<open>int(str(n)) = n\<close>). Its keys are strings:
  \<^verbatim>\<open>putMap\<close> writes a key after \<^verbatim>\<open>tileSet.endswith\<close> has returned, which raises on
  \<^verbatim>\<open>None\<close>.
\<close>

record ParseMap =
  pm_x :: int
  pm_y :: int
  pm_root :: element
  pm_width :: int
  pm_height :: int
  pm_layers :: "(string option \<times> grid) list"
  pm_tileSets :: "(string option \<times> string option) list"
  pm_objects :: "element list"

record BigMap =
  bm_height :: int
  bm_width :: int
  bm_name :: string
  bm_layers :: "(string option \<times> grid) list"
  bm_objects :: "element list"
  bm_tileSets :: "(string \<times> int) list"

subsection \<open>The composite: \<^verbatim>\<open>BigMap\<close>\<close>

definition fill :: "grid \<Rightarrow> int \<Rightarrow> grid" where
  "fill g v = map (map (\<lambda>_. v)) g"

text \<open>\<^verbatim>\<open>BigMap.__init__\<close>: the collision layer is created at once and filled with 2.\<close>

definition BigMap_init :: "int \<Rightarrow> int \<Rightarrow> string \<Rightarrow> error + BigMap" where
  "BigMap_init width height name =
     (case np_zeros height width of
        Inl e \<Rightarrow> Inl e
      | Inr z \<Rightarrow>
          Inr \<lparr>bm_height = height, bm_width = width, bm_name = name,
               bm_layers = [(Some ''Collision'', fill z 2)], bm_objects = [], bm_tileSets = []\<rparr>)"

text \<open>
  \<^verbatim>\<open>for layer in sMap.layers: sMap.layers[layer] = self.reMap(sMap.layers[layer], iVal, fVal, n)\<close>
\<close>

definition remap_layers ::
  "(string option \<times> grid) list \<Rightarrow> int \<Rightarrow> int \<Rightarrow> int \<Rightarrow> (string option \<times> grid) list" where
  "remap_layers ls iVal fVal n = map (\<lambda>(layer, g). (layer, reMap g iVal fVal n)) ls"

text \<open>
  The loop of lines 172 to 176, for a tileset that is new to the big map and is not the
  one with the largest first gid of the small map: the assignment to \<^verbatim>\<open>self.tileSets\<close>
  stands inside the loop over the layers, so it is made once for each layer.
\<close>

definition remap_layers_and_add ::
  "string \<Rightarrow> (string \<times> int) list \<Rightarrow> (string option \<times> grid) list \<Rightarrow> int \<Rightarrow> int \<Rightarrow> int \<Rightarrow>
     (string \<times> int) list \<times> (string option \<times> grid) list" where
  "remap_layers_and_add tileSet tbl ls iVal fVal n =
     fold (\<lambda>(layer, g) (tbl', done).
             (AList.update tileSet fVal tbl', done @ [(layer, reMap g iVal fVal n)]))
       ls (tbl, [])"

text \<open>\<^verbatim>\<open>max(bigFirstGID)\<close> when the big map has a tileset, 1 otherwise (lines 105 to 116).\<close>

definition largest_gid :: "(string \<times> int) list \<Rightarrow> int" where
  "largest_gid tbl = (if map snd tbl \<noteq> [] then Max (set (map snd tbl)) else 1)"

text \<open>
  The lookup \<^verbatim>\<open>tileSet in self.tileSets.keys()\<close> and \<^verbatim>\<open>self.tileSets[tileSet]\<close>; the
  key \<^verbatim>\<open>None\<close> is never in the table.
\<close>

definition big_gid :: "(string \<times> int) list \<Rightarrow> string option \<Rightarrow> int option" where
  "big_gid tbl tileSet = (case tileSet of None \<Rightarrow> None | Some p \<Rightarrow> map_of tbl p)"

text \<open>
  The body of the loop \<^verbatim>\<open>for tileSet in sMap.tileSets\<close> (lines 102 to 176), on the
  state made of \<^verbatim>\<open>self.tileSets\<close> and \<^verbatim>\<open>sMap.layers\<close>.
\<close>

fun tileset_step ::
  "int list \<Rightarrow> string option \<times> string option \<Rightarrow>
     (string \<times> int) list \<times> (string option \<times> grid) list \<Rightarrow>
     error + (string \<times> int) list \<times> (string option \<times> grid) list" where
  "tileset_step smallGID (tileSet, gid) (tbl, ls) =
     (let largestGID = largest_gid tbl in
      (case py_int_opt gid of
         Inl e \<Rightarrow> Inl e
       | Inr smallFirstGID \<Rightarrow>
          (case big_gid tbl tileSet of
             Some bigFirstGID \<Rightarrow>
               (if smallFirstGID = bigFirstGID then Inr (tbl, ls)
                else
                  (case list_index smallGID smallFirstGID of
                     Inl e \<Rightarrow> Inl e
                   | Inr pos \<Rightarrow>
                      (if smallGID ! pos = last smallGID
                       then Inr (tbl, remap_layers ls smallFirstGID bigFirstGID MAX_TILES)
                       else
                         (case list_get smallGID (pos + 1) of
                            Inl e \<Rightarrow> Inl e
                          | Inr nextGID \<Rightarrow>
                              Inr (tbl, remap_layers ls smallFirstGID bigFirstGID
                                          (nextGID - smallFirstGID))))))
           | None \<Rightarrow>
               (case tileSet of
                  None \<Rightarrow> Inl AttributeError
                | Some p \<Rightarrow>
                   (let largestGID = (if endswith p ''collision.tsx'' then - MAX_TILES + 1 else largestGID) in
                    (case list_index smallGID smallFirstGID of
                       Inl e \<Rightarrow> Inl e
                     | Inr pos \<Rightarrow>
                        (if smallGID ! pos = last smallGID
                         then Inr (AList.update p (largestGID + MAX_TILES) tbl,
                                   remap_layers ls smallFirstGID (largestGID + MAX_TILES) MAX_TILES)
                         else
                           (case list_get smallGID (pos + 1) of
                              Inl e \<Rightarrow> Inl e
                            | Inr nextGID \<Rightarrow>
                                Inr (remap_layers_and_add p tbl ls smallFirstGID
                                       (largestGID + MAX_TILES) (nextGID - smallFirstGID))))))))))"

declare tileset_step.simps [simp del]

text \<open>
  The body of the loop \<^verbatim>\<open>for layer in sMap.layers\<close> of lines 185 to 193, on
  \<^verbatim>\<open>self.layers\<close>.
\<close>

fun place_layer ::
  "BigMap \<Rightarrow> ParseMap \<Rightarrow> string option \<times> grid \<Rightarrow> (string option \<times> grid) list \<Rightarrow>
     error + (string option \<times> grid) list" where
  "place_layer self sMap (layer, g) bl =
     (case (case map_of bl layer of
              Some d \<Rightarrow> Inr d
            | None \<Rightarrow> np_zeros (bm_height self) (bm_width self)) of
        Inl e \<Rightarrow> Inl e
      | Inr d \<Rightarrow>
         (case set_slice d (pm_y sMap) (pm_y sMap + pm_height sMap)
                 (pm_x sMap) (pm_x sMap + pm_width sMap) (absolute g) of
            Inl e \<Rightarrow> Inl e
          | Inr d' \<Rightarrow> Inr (AList.update layer d' bl)))"

declare place_layer.simps [simp del]

text \<open>
  \<^verbatim>\<open>BigMap.putMap\<close>. It mutates both \<^verbatim>\<open>self\<close> and \<^verbatim>\<open>sMap\<close> (whose layers it rebinds),
  so the model returns both.
\<close>

definition putMap :: "BigMap \<Rightarrow> ParseMap \<Rightarrow> error + BigMap \<times> ParseMap" where
  "putMap self sMap =
     (case map_err py_int_opt (map snd (pm_tileSets sMap)) of
        Inl e \<Rightarrow> Inl e
      | Inr gids \<Rightarrow>
         (let smallGID = sort gids;
              negated = map (\<lambda>(layer, g). (layer, negate g)) (pm_layers sMap)
          in case fold_err (tileset_step smallGID) (pm_tileSets sMap) (bm_tileSets self, negated) of
               Inl e \<Rightarrow> Inl e
             | Inr (tbl, ls) \<Rightarrow>
                (case fold_err (place_layer self sMap) ls (bm_layers self) of
                   Inl e \<Rightarrow> Inl e
                 | Inr bl \<Rightarrow>
                     Inr (self\<lparr>bm_layers := bl, bm_tileSets := tbl,
                                bm_objects := bm_objects self @ pm_objects sMap\<rparr>,
                          sMap\<lparr>pm_layers := ls\<rparr>))))"

text \<open>The joining loop of \<^verbatim>\<open>main\<close>: \<^verbatim>\<open>for smallMap in maps: bigMap.putMap(smallMap)\<close>.\<close>

fun joinMaps :: "BigMap \<Rightarrow> ParseMap list \<Rightarrow> error + BigMap" where
  "joinMaps bigMap [] = Inr bigMap"
| "joinMaps bigMap (smallMap # maps) =
     (case putMap bigMap smallMap of
        Inl e \<Rightarrow> Inl e
      | Inr (bigMap', _) \<Rightarrow> joinMaps bigMap' maps)"

subsection \<open>The loader: \<^verbatim>\<open>ParseMap\<close>\<close>

text \<open>\<^verbatim>\<open>s.split(sep)\<close> for a separator of one character.\<close>

fun split_on :: "char \<Rightarrow> string \<Rightarrow> string list" where
  "split_on sep [] = [[]]"
| "split_on sep (c # s) =
     (if c = sep then [] # split_on sep s
      else (case split_on sep s of [] \<Rightarrow> [[c]] | w # ws \<Rightarrow> (c # w) # ws))"

text \<open>\<^verbatim>\<open>data.replace(',\n', '\n')\<close>\<close>

fun replace_comma_newline :: "string \<Rightarrow> string" where
  "replace_comma_newline (a # b # s) =
     (if a = CHR '','' \<and> b = CHR 0x0A then CHR 0x0A # replace_comma_newline s
      else a # replace_comma_newline (b # s))"
| "replace_comma_newline s = s"

text \<open>
  \<^verbatim>\<open>numpy.genfromtxt(StringIO(data), delimiter=',')\<close>, as numpy documents it: the text
  after a \<^verbatim>\<open>#\<close> is a comment, a line is stripped and skipped when nothing is left, every
  other line is split at the commas and must have as many fields as the first one
  (\<^verbatim>\<open>ValueError\<close> otherwise), and the result is squeezed: a single column of several rows
  comes back as a one-dimensional array. A field that is not a decimal integer becomes
  \<^verbatim>\<open>nan\<close> or a fractional value in numpy; such text is outside the integer cells of this
  model, which marks it with \<open>NotAnInteger\<close> (not a Python exception).
\<close>

definition csv_lines :: "string \<Rightarrow> string list" where
  "csv_lines data = filter (\<lambda>l. l \<noteq> []) (map (\<lambda>l. strip (takeWhile (\<lambda>c. c \<noteq> CHR ''#'') l)) (split_on (CHR 0x0A) data))"

definition int_field :: "string \<Rightarrow> error + int" where
  "int_field f = (case py_int f of Inl e \<Rightarrow> Inl NotAnInteger | Inr v \<Rightarrow> Inr v)"

definition squeeze :: "grid \<Rightarrow> grid" where
  "squeeze g = (if 1 < length g \<and> list_all (\<lambda>r. length r = 1) g then [concat g] else g)"

definition genfromtxt :: "string \<Rightarrow> error + grid" where
  "genfromtxt data =
     (let rows = map (split_on (CHR '','')) (csv_lines data)
      in if \<not> list_all (\<lambda>r. length r = length (hd rows)) rows then Inl ValueError
         else (case map_err (map_err int_field) rows of
                 Inl e \<Rightarrow> Inl e
               | Inr g \<Rightarrow> Inr (squeeze g)))"

text \<open>\<^verbatim>\<open>ParseMap.handleTileSets\<close>: \<^verbatim>\<open>self.tileSets[source] = gid\<close> for every tileset element.\<close>

definition handleTileSets :: "ParseMap \<Rightarrow> ParseMap" where
  "handleTileSets self =
     fold (\<lambda>tileSet s. s\<lparr>pm_tileSets := AList.update (get tileSet ''source'') (get tileSet ''firstgid'') (pm_tileSets s)\<rparr>)
       (findall (pm_root self) ''tileset'') self"

text \<open>
  \<^verbatim>\<open>ParseMap.handleLayers\<close>. \<^verbatim>\<open>layer.find('data').text\<close> raises \<^verbatim>\<open>AttributeError\<close> when
  the layer has no \<^verbatim>\<open>data\<close> child, and so does \<^verbatim>\<open>data.replace\<close> when that child has no
  text.
\<close>

definition handleLayer :: "element \<Rightarrow> ParseMap \<Rightarrow> error + ParseMap" where
  "handleLayer layer self =
     (let name = get layer ''name'' in
      case find_child layer ''data'' of
        None \<Rightarrow> Inl AttributeError
      | Some d \<Rightarrow>
         (case el_text d of
            None \<Rightarrow> Inl AttributeError
          | Some data \<Rightarrow>
             (case genfromtxt (replace_comma_newline data) of
                Inl e \<Rightarrow> Inl e
              | Inr dataArray \<Rightarrow> Inr (self\<lparr>pm_layers := AList.update name dataArray (pm_layers self)\<rparr>))))"

definition handleLayers :: "ParseMap \<Rightarrow> error + ParseMap" where
  "handleLayers self = fold_err handleLayer (findall (pm_root self) ''layer'') self"

text \<open>
  \<^verbatim>\<open>ParseMap.handleObjects\<close>. The loop visits the \<^verbatim>\<open>object\<close> elements of the tree in
  document order (\<^verbatim>\<open>self.root.iter('object')\<close>: an element before its children, the
  children from the first to the last), rewrites the attributes \<^verbatim>\<open>x\<close> and \<^verbatim>\<open>y\<close> of
  each element in place (lines 354 and 355) and appends the element itself, not a copy of
  it, to \<^verbatim>\<open>self.objects\<close> (line 356). So \<^verbatim>\<open>self.objects\<close> refers to elements of the tree:
  when an \<^verbatim>\<open>object\<close> element lies inside another one, the outer element is appended
  first, the inner one is rewritten afterwards, and the outer element of \<^verbatim>\<open>self.objects\<close>
  then has the rewritten inner element among its children.

  \<open>handleObject\<close> is the body of the loop on one element, lines 354 and 355.
  \<open>rewrite_objects\<close> is the tree that the loop leaves: every \<^verbatim>\<open>object\<close> element
  rewritten, in document order, so that the first element on which \<^verbatim>\<open>int\<close> raises
  ends the loop with its exception. \<open>handleObjects\<close> then reads \<^verbatim>\<open>self.objects\<close> from
  that tree: the objects that were there, followed by the \<^verbatim>\<open>object\<close> elements of the
  rewritten tree in document order.
\<close>

definition handleObject :: "int \<Rightarrow> int \<Rightarrow> element \<Rightarrow> error + element" where
  "handleObject x y obj =
     (case py_int_opt (get obj ''x'') of
        Inl e \<Rightarrow> Inl e
      | Inr vx \<Rightarrow>
         (let obj1 = set_attrib obj ''x'' (py_str (vx + 32 * x)) in
          case py_int_opt (get obj1 ''y'') of
            Inl e \<Rightarrow> Inl e
          | Inr vy \<Rightarrow> Inr (set_attrib obj1 ''y'' (py_str (vy + 32 * y)))))"

fun rewrite_objects :: "int \<Rightarrow> int \<Rightarrow> element \<Rightarrow> error + element"
  and rewrite_children :: "int \<Rightarrow> int \<Rightarrow> element list \<Rightarrow> error + element list" where
  "rewrite_objects x y (Element t a tx cs) =
     (case (if t = ''object'' then handleObject x y (Element t a tx cs) else Inr (Element t a tx cs)) of
        Inl e \<Rightarrow> Inl e
      | Inr obj \<Rightarrow>
         (case rewrite_children x y cs of
            Inl e \<Rightarrow> Inl e
          | Inr cs' \<Rightarrow> Inr (Element (el_tag obj) (el_attrib obj) (el_text obj) cs')))"
| "rewrite_children x y [] = Inr []"
| "rewrite_children x y (c # cs) =
     (case rewrite_objects x y c of
        Inl e \<Rightarrow> Inl e
      | Inr c' \<Rightarrow>
         (case rewrite_children x y cs of
            Inl e \<Rightarrow> Inl e
          | Inr cs' \<Rightarrow> Inr (c' # cs')))"

definition handleObjects :: "ParseMap \<Rightarrow> error + ParseMap" where
  "handleObjects self =
     (case rewrite_objects (pm_x self) (pm_y self) (pm_root self) of
        Inl e \<Rightarrow> Inl e
      | Inr root' \<Rightarrow>
          Inr (self\<lparr>pm_root := root', pm_objects := pm_objects self @ iter root' ''object''\<rparr>))"

text \<open>
  \<^verbatim>\<open>ParseMap.__init__\<close> with \<^verbatim>\<open>handleMap\<close>, from the root of the tree that
  \<^verbatim>\<open>ET.parse(tmx)\<close> returned.
\<close>

definition ParseMap_init :: "element \<Rightarrow> int \<Rightarrow> int \<Rightarrow> error + ParseMap" where
  "ParseMap_init root x y =
     (case attrib_item root ''width'' of
        Inl e \<Rightarrow> Inl e
      | Inr ws \<Rightarrow>
     (case py_int ws of
        Inl e \<Rightarrow> Inl e
      | Inr w \<Rightarrow>
     (case attrib_item root ''height'' of
        Inl e \<Rightarrow> Inl e
      | Inr hs \<Rightarrow>
     (case py_int hs of
        Inl e \<Rightarrow> Inl e
      | Inr h \<Rightarrow>
         (let self = \<lparr>pm_x = x, pm_y = y, pm_root = root, pm_width = w, pm_height = h,
                      pm_layers = [], pm_tileSets = [], pm_objects = []\<rparr>
          in case handleLayers (handleTileSets self) of
               Inl e \<Rightarrow> Inl e
             | Inr self' \<Rightarrow> handleObjects self')))))"

subsection \<open>Notions used in the statements\<close>

text \<open>What \<^verbatim>\<open>reMap\<close> does to one cell: the linear mapping of its docstring.\<close>

definition remap_cell :: "int \<Rightarrow> int \<Rightarrow> int \<Rightarrow> int \<Rightarrow> int" where
  "remap_cell iVal fVal n v = (if iVal \<le> - v \<and> - v < iVal + n then fVal + (- v - iVal) else v)"

text \<open>
  The first gid that \<^verbatim>\<open>putMap\<close> gives to a tileset that is new to the big map: the
  expression \<^verbatim>\<open>largestGID + MAX_TILES\<close> of lines 165, 167, 174 and 176.
\<close>

definition new_gid :: "(string \<times> int) list \<Rightarrow> string \<Rightarrow> int" where
  "new_gid tbl p = (if endswith p ''collision.tsx'' then - MAX_TILES + 1 else largest_gid tbl) + MAX_TILES"




text \<open>The block of \<open>MAX_TILES\<close> identifiers that starts at a first gid.\<close>

definition span :: "int \<Rightarrow> int set" where
  "span firstId = {firstId ..< firstId + MAX_TILES}"

text \<open>
  The invariant of the tileset table of the big map: a path that ends in
  \<^verbatim>\<open>collision.tsx\<close> has the first gid 1, any other path has a first gid above the block
  of 1, and the first gids of two paths that are not both collision tilesets are at least
  \<open>MAX_TILES\<close> apart.
\<close>

definition table_inv :: "(string \<times> int) list \<Rightarrow> bool" where
  "table_inv tbl \<longleftrightarrow>
     (\<forall>p g. map_of tbl p = Some g \<longrightarrow> (if endswith p ''collision.tsx'' then g = 1 else 1 + MAX_TILES \<le> g)) \<and>
     (\<forall>p g q h. map_of tbl p = Some g \<and> map_of tbl q = Some h \<and> p \<noteq> q
         \<and> \<not> (endswith p ''collision.tsx'' \<and> endswith q ''collision.tsx'')
         \<longrightarrow> g + MAX_TILES \<le> h \<or> h + MAX_TILES \<le> g)"

text \<open>Every cell of a grid, and of every layer of the big map, is non-negative.\<close>

definition grid_nonneg :: "grid \<Rightarrow> bool" where
  "grid_nonneg g = list_all (list_all (\<lambda>v. 0 \<le> v)) g"

definition layers_nonneg :: "BigMap \<Rightarrow> bool" where
  "layers_nonneg big = list_all (\<lambda>(layer, g). grid_nonneg g) (bm_layers big)"

text \<open>
  Shapes. A grid of shape \<open>(h, w)\<close>; a big map whose layers all have its declared shape
  (\<^verbatim>\<open>putMap\<close> and the constructor create no other); a small map whose layers have distinct
  names (they are the keys of a dict) and all have its declared shape; and a small map
  placed inside the big map.
\<close>

definition has_shape :: "grid \<Rightarrow> nat \<Rightarrow> nat \<Rightarrow> bool" where
  "has_shape g h w \<longleftrightarrow> length g = h \<and> list_all (\<lambda>row. length row = w) g"

definition wf_big :: "BigMap \<Rightarrow> bool" where
  "wf_big big \<longleftrightarrow> 0 \<le> bm_height big \<and> 0 \<le> bm_width big \<and>
     list_all (\<lambda>(layer, g). has_shape g (nat (bm_height big)) (nat (bm_width big))) (bm_layers big)"

definition wf_small :: "ParseMap \<Rightarrow> bool" where
  "wf_small sMap \<longleftrightarrow> 0 \<le> pm_height sMap \<and> 0 \<le> pm_width sMap \<and>
     distinct (map fst (pm_layers sMap)) \<and>
     list_all (\<lambda>(layer, g). has_shape g (nat (pm_height sMap)) (nat (pm_width sMap))) (pm_layers sMap)"

definition fits :: "BigMap \<Rightarrow> ParseMap \<Rightarrow> bool" where
  "fits big sMap \<longleftrightarrow>
     0 \<le> pm_x sMap \<and> pm_x sMap + pm_width sMap \<le> bm_width big \<and>
     0 \<le> pm_y sMap \<and> pm_y sMap + pm_height sMap \<le> bm_height big"

text \<open>The names of the layers of a map with the shape of each grid (the length of each row).\<close>

definition layer_shapes :: "(string option \<times> grid) list \<Rightarrow> (string option \<times> nat list) list" where
  "layer_shapes ls = map (\<lambda>(layer, g). (layer, map length g)) ls"

text \<open>
  The grid that a layer of the big map holds before \<^verbatim>\<open>putMap\<close> writes into it: the grid of
  that name, or the new all-zero grid of lines 190 and 191.
\<close>

definition layer_before :: "BigMap \<Rightarrow> string option \<Rightarrow> grid" where
  "layer_before big layer =
     (case map_of (bm_layers big) layer of
        Some d \<Rightarrow> d
      | None \<Rightarrow> replicate (nat (bm_height big)) (replicate (nat (bm_width big)) 0))"

text \<open>The cell \<open>(r, c)\<close> of the big map lies in the rectangle where the small map is placed.\<close>

definition in_rect :: "ParseMap \<Rightarrow> nat \<Rightarrow> nat \<Rightarrow> bool" where
  "in_rect sMap r c \<longleftrightarrow>
     pm_y sMap \<le> int r \<and> int r < pm_y sMap + pm_height sMap \<and>
     pm_x sMap \<le> int c \<and> int c < pm_x sMap + pm_width sMap"

text \<open>
  An object element after the loader, against the element of the file: the attributes
  \<^verbatim>\<open>x\<close> and \<^verbatim>\<open>y\<close> read as integers and moved by 32 times the offset, every other
  attribute, the tag and the text as they were, and the children as they were when no
  \<^verbatim>\<open>object\<close> element lies inside the element.
\<close>

definition shifted :: "int \<Rightarrow> int \<Rightarrow> element \<Rightarrow> element \<Rightarrow> bool" where
  "shifted offsetX offsetY obj obj' \<longleftrightarrow>
     (\<exists>originalX originalY.
        py_int_opt (get obj ''x'') = Inr originalX \<and> py_int_opt (get obj ''y'') = Inr originalY \<and>
        py_int_opt (get obj' ''x'') = Inr (originalX + 32 * offsetX) \<and>
        py_int_opt (get obj' ''y'') = Inr (originalY + 32 * offsetY)) \<and>
     (\<forall>k. k \<noteq> ''x'' \<and> k \<noteq> ''y'' \<longrightarrow> get obj' k = get obj k) \<and>
     el_tag obj' = el_tag obj \<and> el_text obj' = el_text obj \<and>
     ((\<forall>c \<in> set (el_children obj). iter c ''object'' = []) \<longrightarrow> el_children obj' = el_children obj)"

subsection \<open>Example maps\<close>

text \<open>A map record with no XML behind it, as \<^verbatim>\<open>putMap\<close> reads none.\<close>

definition small_map ::
  "int \<Rightarrow> int \<Rightarrow> int \<Rightarrow> int \<Rightarrow> (string option \<times> grid) list \<Rightarrow> (string option \<times> string option) list \<Rightarrow> ParseMap" where
  "small_map x y w h ls ts =
     \<lparr>pm_x = x, pm_y = y, pm_root = Element ''map'' [] None [], pm_width = w, pm_height = h,
      pm_layers = ls, pm_tileSets = ts, pm_objects = []\<rparr>"

text \<open>A big map of one tile that holds the tileset \<^verbatim>\<open>grass.tsx\<close> at the first gid 513.\<close>

definition grass_big :: BigMap where
  "grass_big = \<lparr>bm_height = 1, bm_width = 1, bm_name = ''world'',
                 bm_layers = [(Some ''Collision'', [[2]])], bm_objects = [],
                 bm_tileSets = [(''grass.tsx'', 513)]\<rparr>"

text \<open>A map of one tile that uses \<^verbatim>\<open>grass.tsx\<close> with the local first gid 1.\<close>

definition grass_small :: ParseMap where
  "grass_small = small_map 0 0 1 1 [(Some ''Ground'', [[3]])] [(Some ''grass.tsx'', Some ''1'')]"

text \<open>The big map of one tile that \<^verbatim>\<open>BigMap(1, 1, 'world')\<close> constructs.\<close>

definition world_big :: BigMap where
  "world_big = \<lparr>bm_height = 1, bm_width = 1, bm_name = ''world'',
                 bm_layers = [(Some ''Collision'', [[2]])], bm_objects = [], bm_tileSets = []\<rparr>"

text \<open>
  Two maps of one tile, each with a collision layer and the collision tileset, which they
  reach by two different paths.
\<close>

definition coll_map_a :: ParseMap where
  "coll_map_a = small_map 0 0 1 1 [(Some ''Collision'', [[1]])] [(Some ''../tilesets/collision.tsx'', Some ''1'')]"

definition coll_map_b :: ParseMap where
  "coll_map_b = small_map 0 0 1 1 [(Some ''Collision'', [[1]])] [(Some ''tilesets/collision.tsx'', Some ''1'')]"

text \<open>A map with two tilesets and a ground layer, and a map with two tilesets and no layer.\<close>

definition two_sets_map :: ParseMap where
  "two_sets_map = small_map 0 0 1 1 [(Some ''Ground'', [[514]])] [(Some ''a.tsx'', Some ''1''), (Some ''b.tsx'', Some ''513'')]"

definition no_layer_map :: ParseMap where
  "no_layer_map = small_map 0 0 1 1 [] [(Some ''a.tsx'', Some ''1''), (Some ''b.tsx'', Some ''513'')]"

text \<open>
  The big map that \<^verbatim>\<open>BigMap(3, 3, 'world')\<close> constructs, and a map of two by two tiles
  placed at \<open>(1, 1)\<close>, with one tileset and a ground layer.
\<close>

definition world3 :: BigMap where
  "world3 = \<lparr>bm_height = 3, bm_width = 3, bm_name = ''world'',
              bm_layers = [(Some ''Collision'', [[2, 2, 2], [2, 2, 2], [2, 2, 2]])],
              bm_objects = [], bm_tileSets = []\<rparr>"

definition ground_map :: ParseMap where
  "ground_map = small_map 1 1 2 2 [(Some ''Ground'', [[1, 2], [3, 0]])] [(Some ''a.tsx'', Some ''1'')]"

text \<open>
  A map of four by four tiles placed at \<open>(2, 3)\<close>, with an empty collision layer, a ground
  layer and two tilesets.
\<close>

definition empty_collision_map :: ParseMap where
  "empty_collision_map =
     small_map 2 3 4 4
       [(Some ''Collision'', [[0, 0, 0, 0], [0, 0, 0, 0], [0, 0, 0, 0], [0, 0, 0, 0]]),
        (Some ''Ground'', [[2, 2, 2, 2], [2, 3, 3, 2], [2, 3, 3, 2], [2, 2, 2, 2]])]
       [(Some ''../tilesets/collision.tsx'', Some ''1''), (Some ''../tilesets/grass.tsx'', Some ''2'')]"

text \<open>
  The collision layer of a big map of ten by ten tiles, with a block of zeros at the
  rows 3 to 6 and the columns 2 to 5.
\<close>

definition collision_with_hole :: grid where
  "collision_with_hole =
     [[2, 2, 2, 2, 2, 2, 2, 2, 2, 2],
      [2, 2, 2, 2, 2, 2, 2, 2, 2, 2],
      [2, 2, 2, 2, 2, 2, 2, 2, 2, 2],
      [2, 2, 0, 0, 0, 0, 2, 2, 2, 2],
      [2, 2, 0, 0, 0, 0, 2, 2, 2, 2],
      [2, 2, 0, 0, 0, 0, 2, 2, 2, 2],
      [2, 2, 0, 0, 0, 0, 2, 2, 2, 2],
      [2, 2, 2, 2, 2, 2, 2, 2, 2, 2],
      [2, 2, 2, 2, 2, 2, 2, 2, 2, 2],
      [2, 2, 2, 2, 2, 2, 2, 2, 2, 2]]"

text \<open>A map file with a layer, a tileset and two objects.\<close>

definition chest_object :: element where
  "chest_object = Element ''object'' [(''name'', ''chest''), (''x'', ''64''), (''y'', ''96'')] None []"

definition door_object :: element where
  "door_object = Element ''object'' [(''x'', ''0''), (''y'', ''-32''), (''type'', ''warp'')] None
                   [Element ''properties'' [] None []]"

definition village_root :: element where
  "village_root =
     Element ''map'' [(''width'', ''3''), (''height'', ''2'')] None
       [Element ''tileset'' [(''firstgid'', ''1''), (''source'', ''../tilesets/grass.tsx'')] None [],
        Element ''layer'' [(''name'', ''Ground'')] None
          [Element ''data'' [(''encoding'', ''csv'')] (Some [CHR 0x0A, CHR ''1'', CHR '','', CHR ''2'', CHR '','', CHR ''3'', CHR '','', CHR 0x0A, CHR ''4'', CHR '','', CHR ''5'', CHR '','', CHR ''6'', CHR 0x0A]) []],
        Element ''objectgroup'' [(''name'', ''Objects'')] None [chest_object, door_object]]"

text \<open>A map file with an object that lies inside another object.\<close>

definition nested_root :: element where
  "nested_root =
     Element ''map'' [(''width'', ''1''), (''height'', ''1'')] None
       [Element ''objectgroup'' [] None
          [Element ''object'' [(''x'', ''0''), (''y'', ''0'')] None
             [Element ''object'' [(''x'', ''10''), (''y'', ''20'')] None []]]]"

text \<open>
  A map file with the declared width 4 and a layer whose rows have three cells, a map file
  whose second row is one cell short, and a map file without a width.
\<close>

definition ground_layer :: "string \<Rightarrow> element" where
  "ground_layer data = Element ''layer'' [(''name'', ''Ground'')] None [Element ''data'' [(''encoding'', ''csv'')] (Some data) []]"

definition narrow_root :: element where
  "narrow_root =
     Element ''map'' [(''width'', ''4''), (''height'', ''2'')] None
       [ground_layer [CHR 0x0A, CHR ''1'', CHR '','', CHR ''2'', CHR '','', CHR ''3'', CHR '','', CHR 0x0A, CHR ''4'', CHR '','', CHR ''5'', CHR '','', CHR ''6'', CHR 0x0A]]"

definition ragged_text :: string where
  "ragged_text = [CHR 0x0A, CHR ''1'', CHR '','', CHR ''2'', CHR '','', CHR ''3'', CHR '','', CHR 0x0A, CHR ''4'', CHR '','', CHR ''5'', CHR 0x0A]"

definition ragged_root :: element where
  "ragged_root = Element ''map'' [(''width'', ''3''), (''height'', ''2'')] None [ground_layer ragged_text]"

definition no_width_root :: element where
  "no_width_root = Element ''map'' [(''height'', ''2'')] None []"

section \<open>Properties\<close>

subsection \<open>\<^verbatim>\<open>int(str(n)) = n\<close>\<close>

lemma below_ten: "d < 10 \<Longrightarrow> d \<in> {0, 1, 2, 3, 4, 5, 6, 7, 8, 9::nat}"
  by auto

lemma digit_val_nth: "d < 10 \<Longrightarrow> digit_val (digit_chars ! d) = d"
  by (drule below_ten) (auto simp: digit_val_def digit_chars_def)

lemma is_digit_nth: "d < 10 \<Longrightarrow> is_digit (digit_chars ! d)"
  by (drule below_ten) (auto simp: is_digit_def digit_chars_def)

lemma digits_all: "list_all is_digit (digits n)"
proof (induction n rule: digits.induct)
  case (1 n)
  show ?case
  proof (cases "n < 10")
    case True then show ?thesis by (subst digits.simps) (simp add: is_digit_nth)
  next
    case False
    with 1 show ?thesis by (subst digits.simps) (simp add: is_digit_nth)
  qed
qed

lemma digits_ne: "digits n \<noteq> []"
  by (subst digits.simps) simp

lemma digits_val_app: "digits_val (s @ [c]) = 10 * digits_val s + digit_val c"
  by (simp add: digits_val_def)

lemma digits_val_digits: "digits_val (digits n) = n"
proof (induction n rule: digits.induct)
  case (1 n)
  show ?case
  proof (cases "n < 10")
    case True then show ?thesis by (subst digits.simps) (simp add: digits_val_def digit_val_nth)
  next
    case False
    with 1 show ?thesis by (subst digits.simps) (simp add: digits_val_app digit_val_nth)
  qed
qed

lemma digit_not_space: "is_digit c \<Longrightarrow> \<not> is_space c"
  by (auto simp: is_digit_def is_space_def digit_chars_def)

lemma digit_not_sign: "is_digit c \<Longrightarrow> c \<noteq> CHR ''-'' \<and> c \<noteq> CHR ''+''"
  by (auto simp: is_digit_def digit_chars_def)

lemma strip_id:
  assumes "s \<noteq> []" "\<not> is_space (hd s)" "\<not> is_space (last s)"
  shows "strip s = s"
proof -
  have a: "dropWhile is_space s = s"
    using assms by (cases s) simp_all
  have "rev s \<noteq> []" "\<not> is_space (hd (rev s))"
    using assms by (simp_all add: hd_rev)
  then have "dropWhile is_space (rev s) = rev s"
    by (cases "rev s") simp_all
  then show ?thesis by (simp add: strip_def a)
qed

lemma unsigned_int_digits: "unsigned_int (digits n) = Inr (int n)"
  by (simp add: unsigned_int_def digits_ne digits_all digits_val_digits)

lemma hd_digits: "is_digit (hd (digits n))"
  using digits_all [of n] digits_ne [of n] by (cases "digits n") simp_all

lemma last_digits: "is_digit (last (digits n))"
  using digits_all [of n] digits_ne [of n] by (cases "digits n" rule: rev_cases) simp_all

lemma py_int_digits: "py_int (digits n) = Inr (int n)"
proof -
  have s: "strip (digits n) = digits n"
    by (rule strip_id) (simp_all add: digits_ne hd_digits last_digits digit_not_space)
  obtain c ds where cd: "digits n = c # ds" using digits_ne [of n] by (cases "digits n") auto
  have "is_digit c" using hd_digits [of n] cd by simp
  then have "c \<noteq> CHR ''-''" "c \<noteq> CHR ''+''" using digit_not_sign by auto
  then show ?thesis using unsigned_int_digits [of n] by (simp add: py_int_def s cd [symmetric]) (simp add: cd)
qed

lemma py_int_py_str: "py_int (py_str i) = Inr i"
proof (cases "i < 0")
  case False
  then show ?thesis by (simp add: py_str_def py_int_digits)
next
  case True
  have "\<not> is_space (last (digits (nat (- i))))"
    by (simp add: last_digits digit_not_space)
  moreover have "\<not> is_space (CHR ''-'')" by (simp add: is_space_def)
  ultimately have "strip (CHR ''-'' # digits (nat (- i))) = CHR ''-'' # digits (nat (- i))"
    by (intro strip_id) (simp_all add: digits_ne)
  then show ?thesis using True by (simp add: py_str_def py_int_def unsigned_int_digits)
qed

subsection \<open>\<^verbatim>\<open>reMap\<close> cell by cell\<close>

lemma map2_map_same: "map2 f xs (map h xs) = map (\<lambda>x. f x (h x)) xs"
  by (induction xs) simp_all

lemma assign_where_map:
  "assign_where g old new (map (map h) g) = map (map (\<lambda>v. if v = old then new else h v)) g"
  by (simp add: assign_where_def map2_map_same)

lemma foldl_assign_where:
  "foldl (\<lambda>out (old, new). assign_where g old new out) (map (map h) g) rs
     = map (map (\<lambda>v. case map_of (rev rs) v of Some new \<Rightarrow> new | None \<Rightarrow> h v)) g"
proof (induction rs arbitrary: h)
  case Nil
  show ?case by simp
next
  case (Cons r rs)
  obtain old new where r: "r = (old, new)" by (cases r)
  have "(\<lambda>v. case map_of (rev rs) v of Some n \<Rightarrow> n | None \<Rightarrow> if v = old then new else h v)
        = (\<lambda>v. case map_of (rev (r # rs)) v of Some n \<Rightarrow> n | None \<Rightarrow> h v)"
    by (auto simp: r map_add_def fun_eq_iff split: option.splits)
  then show ?case
    using Cons.IH [of "\<lambda>v. if v = old then new else h v"]
    by (simp add: r assign_where_map)
qed

lemma map_of_rule:
  "map_of (map (\<lambda>i. (- (iVal + i), fVal + i)) xs) (v::int)
     = (if - v - iVal \<in> set xs then Some (fVal + (- v - iVal)) else None)"
proof (induction xs)
  case Nil
  show ?case by simp
next
  case (Cons a xs)
  have "(- (iVal + a) = v) = (a = - v - iVal)" by auto
  then show ?case using Cons by auto
qed

lemma reMap_cells [code]: "reMap g iVal fVal n = map (map (remap_cell iVal fVal n)) g"
proof -
  have "reMap g iVal fVal n
        = foldl (\<lambda>out (old, new). assign_where g old new out) (map (map (\<lambda>v. v)) g) (rule_of iVal fVal n)"
    by (simp add: reMap_def)
  also have "\<dots> = map (map (\<lambda>v. case map_of (rev (rule_of iVal fVal n)) v of Some new \<Rightarrow> new | None \<Rightarrow> v)) g"
    by (rule foldl_assign_where)
  also have "(\<lambda>v. case map_of (rev (rule_of iVal fVal n)) v of Some new \<Rightarrow> new | None \<Rightarrow> v)
             = remap_cell iVal fVal n"
    unfolding rule_of_def rev_map map_of_rule
    by (auto simp: remap_cell_def fun_eq_iff)
  finally show ?thesis .
qed

lemma remap_cell_nonneg: "1 \<le> iVal \<Longrightarrow> 0 \<le> v \<Longrightarrow> remap_cell iVal fVal n v = v"
  by (simp add: remap_cell_def)

text \<open>
  Claim C5. With \<open>1 \<le> iVal\<close>, \<^verbatim>\<open>reMap\<close> returns a grid whose cells are all non-negative
  unchanged; and a cell that holds 0 holds 0 after \<^verbatim>\<open>reMap\<close> and after the negation of
  lines 98 and 99, in any grid.
\<close>

theorem reMap_nonneg_noop:
  assumes "1 \<le> iVal"
  shows "((\<forall>row \<in> set g. \<forall>v \<in> set row. 0 \<le> v) \<longrightarrow> reMap g iVal fVal n = g)
       \<and> (\<forall>r < length h. \<forall>c < length (h ! r). h ! r ! c = 0 \<longrightarrow>
             reMap h iVal fVal n ! r ! c = 0 \<and> negate h ! r ! c = 0)"
proof -
  have "reMap g iVal fVal n = g" if nn: "\<forall>row \<in> set g. \<forall>v \<in> set row. 0 \<le> v"
  proof -
    have "map (map (remap_cell iVal fVal n)) g = map (map (\<lambda>v. v)) g"
      using nn assms by (intro map_cong refl) (simp add: remap_cell_nonneg)
    then show ?thesis by (simp add: reMap_cells)
  qed
  moreover have "reMap h iVal fVal n ! r ! c = 0 \<and> negate h ! r ! c = 0"
    if "r < length h" "c < length (h ! r)" "h ! r ! c = 0" for r c
    using that assms by (simp add: reMap_cells negate_def remap_cell_nonneg)
  ultimately show ?thesis by blast
qed

theorem reMap_nonneg_noop_witness:
  "(1::int) \<le> 1 \<and> reMap [[0, 5], [513, 0]] 1 513 512 = [[0, 5], [513, 0]]
     \<and> reMap [[0, - 2]] 1 513 512 ! 0 ! 0 = 0 \<and> negate [[0, - 2]] ! 0 ! 0 = 0"
  using reMap_nonneg_noop [of 1 "[[0, 5], [513, 0]]" 513 512 "[[0, - 2]]"]
  by simp

subsection \<open>The tileset table of the big map\<close>

lemma fold_err_inv:
  assumes "fold_err f xs s = Inr s'" "P s"
    and "\<And>x t t'. x \<in> set xs \<Longrightarrow> P t \<Longrightarrow> f x t = Inr t' \<Longrightarrow> P t'"
  shows "P s'"
  using assms
proof (induction xs arbitrary: s)
  case Nil
  then show ?case by simp
next
  case (Cons x xs)
  from Cons.prems(1) obtain t where t: "f x s = Inr t" "fold_err f xs t = Inr s'"
    by (auto split: sum.splits)
  have "P t" using Cons.prems(2,3) t(1) by auto
  then show ?case using Cons.IH [OF t(2)] Cons.prems(3) by auto
qed

lemma remap_layers_and_add_fold:
  "fold (\<lambda>(layer, g) (tbl', done).
             (AList.update p f tbl', done @ [(layer, reMap g i f n)])) ls (tbl, acc)
     = (if ls = [] then tbl else AList.update p f tbl, acc @ remap_layers ls i f n)"
  by (induction ls arbitrary: tbl acc) (auto simp: remap_layers_def)

lemma remap_layers_and_add_eq:
  "remap_layers_and_add p tbl ls i f n
     = (if ls = [] then tbl else AList.update p f tbl, remap_layers ls i f n)"
  unfolding remap_layers_and_add_def by (simp add: remap_layers_and_add_fold)

lemma tileset_step_known:
  assumes "tileset_step sg (ts, gid) (tbl, ls) = Inr (tbl', ls')" "big_gid tbl ts = Some g"
  shows "tbl' = tbl \<and> (\<exists>small n. py_int_opt gid = Inr small \<and>
            ls' = (if small = g then ls else remap_layers ls small g n))"
  using assms
  by (auto simp: tileset_step.simps Let_def split: sum.splits if_splits)

lemma tileset_step_new:
  assumes "tileset_step sg (ts, gid) (tbl, ls) = Inr (tbl', ls')" "big_gid tbl ts = None"
  shows "\<exists>p small n. ts = Some p \<and> map_of tbl p = None \<and> py_int_opt gid = Inr small
           \<and> ls' = remap_layers ls small (new_gid tbl p) n
           \<and> (tbl' = AList.update p (new_gid tbl p) tbl \<or> tbl' = tbl \<and> ls = [])"
  using assms
  by (auto simp: tileset_step.simps Let_def big_gid_def new_gid_def remap_layers_and_add_eq
           split: sum.splits if_splits option.splits)

lemma tileset_step_table:
  assumes "tileset_step sg (ts, gid) (tbl, ls) = Inr (tbl', ls')"
  shows "tbl' = tbl \<or> (\<exists>p. map_of tbl p = None \<and> tbl' = AList.update p (new_gid tbl p) tbl)"
proof (cases "big_gid tbl ts")
  case None
  from tileset_step_new [OF assms None] show ?thesis by auto
next
  case (Some g)
  from tileset_step_known [OF assms Some] show ?thesis by auto
qed

lemma tileset_step_keeps:
  assumes "tileset_step sg e (tbl, ls) = Inr (tbl', ls')" "map_of tbl p = Some g"
  shows "map_of tbl' p = Some g"
proof -
  obtain ts gid where e: "e = (ts, gid)" by (cases e)
  from tileset_step_table [OF assms(1) [unfolded e]] assms(2) show ?thesis
    by (auto simp: update_conv')
qed

lemma tileset_loop_keeps:
  assumes "fold_err (tileset_step sg) es (tbl, ls) = Inr (tbl', ls')" "map_of tbl p = Some g"
  shows "map_of tbl' p = Some g"
proof -
  have "map_of (fst (tbl', ls')) p = Some g"
    by (rule fold_err_inv [OF assms(1), where P = "\<lambda>st. map_of (fst st) p = Some g"])
       (use assms(2) in \<open>auto intro: tileset_step_keeps\<close>)
  then show ?thesis by simp
qed

lemma putMap_Inr:
  assumes "putMap big s = Inr (big', s')"
  obtains gids tbl ls bl where
    "map_err py_int_opt (map snd (pm_tileSets s)) = Inr gids"
    "fold_err (tileset_step (sort gids)) (pm_tileSets s)
       (bm_tileSets big, map (\<lambda>(layer, g). (layer, negate g)) (pm_layers s)) = Inr (tbl, ls)"
    "fold_err (place_layer big s) ls (bm_layers big) = Inr bl"
    "big' = big\<lparr>bm_layers := bl, bm_tileSets := tbl, bm_objects := bm_objects big @ pm_objects s\<rparr>"
    "s' = s\<lparr>pm_layers := ls\<rparr>"
  using assms by (auto simp: putMap_def Let_def split: sum.splits prod.splits)

lemma putMap_keeps:
  assumes "putMap big s = Inr (big', s')" "map_of (bm_tileSets big) p = Some g"
  shows "map_of (bm_tileSets big') p = Some g"
proof -
  from assms(1) obtain gids tbl ls where
    "fold_err (tileset_step (sort gids)) (pm_tileSets s)
       (bm_tileSets big, map (\<lambda>(layer, g). (layer, negate g)) (pm_layers s)) = Inr (tbl, ls)"
    "bm_tileSets big' = tbl"
    by (elim putMap_Inr) simp
  then show ?thesis using tileset_loop_keeps assms(2) by blast
qed

lemma joinMaps_keeps:
  assumes "joinMaps big maps = Inr big'" "map_of (bm_tileSets big) p = Some g"
  shows "map_of (bm_tileSets big') p = Some g"
  using assms
proof (induction maps arbitrary: big)
  case Nil
  then show ?case by simp
next
  case (Cons s maps)
  from Cons.prems(1) obtain b1 s1 where 1: "putMap big s = Inr (b1, s1)" "joinMaps b1 maps = Inr big'"
    by (auto split: sum.splits)
  from putMap_keeps [OF 1(1) Cons.prems(2)] Cons.IH [OF 1(2)] show ?case by simp
qed

text \<open>
  Claim C7. A path that has a first gid in the table of the big map keeps it through every
  \<^verbatim>\<open>putMap\<close> and through the whole joining loop; and when \<^verbatim>\<open>putMap\<close> meets this path
  in a small map, it leaves the table as it is and remaps the layers of the small map to
  that first gid (or leaves them alone when the local first gid is the same).
\<close>

theorem tileset_gid_stable:
  assumes "map_of (bm_tileSets big) p = Some g"
  shows "(\<forall>s big' s'. putMap big s = Inr (big', s') \<longrightarrow> map_of (bm_tileSets big') p = Some g)
       \<and> (\<forall>maps big'. joinMaps big maps = Inr big' \<longrightarrow> map_of (bm_tileSets big') p = Some g)
       \<and> (\<forall>sg gid ls tbl' ls'.
             tileset_step sg (Some p, gid) (bm_tileSets big, ls) = Inr (tbl', ls') \<longrightarrow>
             tbl' = bm_tileSets big \<and>
             (\<exists>small n. py_int_opt gid = Inr small \<and>
                 ls' = (if small = g then ls else remap_layers ls small g n)))"
proof (intro conjI allI impI)
  fix s big' s' assume "putMap big s = Inr (big', s')"
  then show "map_of (bm_tileSets big') p = Some g" using assms by (rule putMap_keeps)
next
  fix maps big' assume "joinMaps big maps = Inr big'"
  then show "map_of (bm_tileSets big') p = Some g" using assms by (rule joinMaps_keeps)
next
  fix sg gid ls tbl' ls'
  assume st: "tileset_step sg (Some p, gid) (bm_tileSets big, ls) = Inr (tbl', ls')"
  have bg: "big_gid (bm_tileSets big) (Some p) = Some g" using assms by (simp add: big_gid_def)
  from tileset_step_known [OF st bg]
  show "tbl' = bm_tileSets big" 
    and "\<exists>small n. py_int_opt gid = Inr small \<and>
                 ls' = (if small = g then ls else remap_layers ls small g n)" by auto
qed

theorem tileset_gid_stable_witness:
  "map_of (bm_tileSets grass_big) ''grass.tsx'' = Some 513
   \<and> putMap grass_big grass_small
       = Inr (grass_big\<lparr>bm_layers := [(Some ''Collision'', [[2]]), (Some ''Ground'', [[515]])]\<rparr>,
              grass_small\<lparr>pm_layers := [(Some ''Ground'', [[515]])]\<rparr>)
   \<and> map_of (bm_tileSets (grass_big\<lparr>bm_layers := [(Some ''Collision'', [[2]]), (Some ''Ground'', [[515]])]\<rparr>))
         ''grass.tsx'' = Some 513"
proof -
  have h: "map_of (bm_tileSets grass_big) ''grass.tsx'' = Some 513"
    by (simp add: grass_big_def)
  have e: "putMap grass_big grass_small
       = Inr (grass_big\<lparr>bm_layers := [(Some ''Collision'', [[2]]), (Some ''Ground'', [[515]])]\<rparr>,
              grass_small\<lparr>pm_layers := [(Some ''Ground'', [[515]])]\<rparr>)"
    by code_simp
  from tileset_gid_stable [OF h] e h show ?thesis by blast
qed

subsection \<open>The invariant of the tileset table\<close>

lemma largest_gid_ge: "map_of tbl q = Some h \<Longrightarrow> h \<le> largest_gid tbl"
proof -
  assume a: "map_of tbl q = Some h"
  then have "(q, h) \<in> set tbl" by (rule map_of_SomeD)
  then have "h \<in> set (map snd tbl)" by force
  moreover from this have "map snd tbl \<noteq> []" by auto
  ultimately show ?thesis by (simp add: largest_gid_def del: set_map)
qed

lemma largest_gid_ge1: "table_inv tbl \<Longrightarrow> 1 \<le> largest_gid tbl"
proof (cases tbl)
  case Nil
  then show ?thesis by (simp add: largest_gid_def)
next
  case (Cons e es)
  assume inv: "table_inv tbl"
  obtain p g where e: "e = (p, g)" by (cases e)
  have m: "map_of tbl p = Some g" by (simp add: Cons e)
  from inv have "if endswith p ''collision.tsx'' then g = 1 else 1 + MAX_TILES \<le> g"
    using m unfolding table_inv_def by blast
  then have "1 \<le> g" by (simp add: MAX_TILES_def split: if_splits)
  with largest_gid_ge [OF m] show ?thesis by simp
qed

lemma table_inv_update:
  assumes "table_inv tbl" "map_of tbl p = None"
  shows "table_inv (AList.update p (new_gid tbl p) tbl)"
proof -
  let ?v = "new_gid tbl p"
  have ge: "\<And>q h. map_of tbl q = Some h \<Longrightarrow> h \<le> largest_gid tbl" by (rule largest_gid_ge)
  have ge1: "1 \<le> largest_gid tbl" using assms(1) by (rule largest_gid_ge1)
  have a: "\<And>q h. map_of tbl q = Some h \<Longrightarrow>
              (if endswith q ''collision.tsx'' then h = 1 else 1 + MAX_TILES \<le> h)"
    using assms(1) by (simp add: table_inv_def)
  have b: "\<And>q h r k. map_of tbl q = Some h \<Longrightarrow> map_of tbl r = Some k \<Longrightarrow> q \<noteq> r \<Longrightarrow>
              \<not> (endswith q ''collision.tsx'' \<and> endswith r ''collision.tsx'') \<Longrightarrow>
              h + MAX_TILES \<le> k \<or> k + MAX_TILES \<le> h"
    using assms(1) unfolding table_inv_def by blast
  have v: "if endswith p ''collision.tsx'' then ?v = 1 else ?v = largest_gid tbl + MAX_TILES"
    by (simp add: new_gid_def)
  have far: "h + MAX_TILES \<le> ?v \<or> ?v + MAX_TILES \<le> h"
    if "map_of tbl q = Some h" "\<not> (endswith p ''collision.tsx'' \<and> endswith q ''collision.tsx'')" for q h
  proof (cases "endswith p ''collision.tsx''")
    case True
    with that a [OF that(1)] v show ?thesis by (auto split: if_splits)
  next
    case False
    with v ge [OF that(1)] show ?thesis by simp
  qed
  show ?thesis
    unfolding table_inv_def update_conv'
  proof (intro conjI allI impI)
    fix q h assume "((map_of tbl)(p \<mapsto> ?v)) q = Some h"
    then show "if endswith q ''collision.tsx'' then h = 1 else 1 + MAX_TILES \<le> h"
      using a [of q h] v ge1 by (auto split: if_splits)
  next
    fix q h r k
    assume "((map_of tbl)(p \<mapsto> ?v)) q = Some h \<and> ((map_of tbl)(p \<mapsto> ?v)) r = Some k \<and> q \<noteq> r
            \<and> \<not> (endswith q ''collision.tsx'' \<and> endswith r ''collision.tsx'')"
    then show "h + MAX_TILES \<le> k \<or> k + MAX_TILES \<le> h"
      using b [of q h r k] far [of r k] far [of q h] by (auto split: if_splits)
  qed
qed

lemma table_inv_step:
  assumes "tileset_step sg e (tbl, ls) = Inr (tbl', ls')" "table_inv tbl"
  shows "table_inv tbl'"
proof -
  obtain ts gid where e: "e = (ts, gid)" by (cases e)
  from tileset_step_table [OF assms(1) [unfolded e]] assms(2) show ?thesis
    by (auto intro: table_inv_update)
qed

lemma table_inv_putMap:
  assumes "putMap big s = Inr (big', s')" "table_inv (bm_tileSets big)"
  shows "table_inv (bm_tileSets big')"
proof -
  from assms(1) obtain gids tbl ls where
    f: "fold_err (tileset_step (sort gids)) (pm_tileSets s)
       (bm_tileSets big, map (\<lambda>(layer, g). (layer, negate g)) (pm_layers s)) = Inr (tbl, ls)"
    and t: "bm_tileSets big' = tbl"
    by (elim putMap_Inr) simp
  have "table_inv (fst (tbl, ls))"
    by (rule fold_err_inv [OF f, where P = "\<lambda>st. table_inv (fst st)"])
       (use assms(2) in \<open>auto intro: table_inv_step\<close>)
  then show ?thesis by (simp add: t)
qed

lemma table_inv_joinMaps:
  assumes "joinMaps big maps = Inr big'" "table_inv (bm_tileSets big)"
  shows "table_inv (bm_tileSets big')"
  using assms
proof (induction maps arbitrary: big)
  case Nil
  then show ?case by simp
next
  case (Cons s maps)
  from Cons.prems(1) obtain b1 s1 where 1: "putMap big s = Inr (b1, s1)" "joinMaps b1 maps = Inr big'"
    by (auto split: sum.splits)
  from table_inv_putMap [OF 1(1) Cons.prems(2)] Cons.IH [OF 1(2)] show ?case by simp
qed

lemma table_inv_init: "BigMap_init width height name = Inr big \<Longrightarrow> table_inv (bm_tileSets big)"
  by (auto simp: BigMap_init_def table_inv_def split: sum.splits)

lemma span_disjoint: "g + MAX_TILES \<le> h \<or> h + MAX_TILES \<le> g \<Longrightarrow> span g \<inter> span h = {}"
  by (auto simp: span_def)

text \<open>
  Claim C1, as amended. In a big map that the joining loop has built from a newly
  constructed one, two paths of the tileset table that are different, and are not both
  paths of a collision tileset (ending in \<^verbatim>\<open>collision.tsx\<close>), have disjoint blocks of
  \<open>MAX_TILES\<close> identifiers.
\<close>

theorem spans_disjoint:
  assumes "BigMap_init width height name = Inr big0" "joinMaps big0 maps = Inr big"
    and "map_of (bm_tileSets big) p = Some g" "map_of (bm_tileSets big) q = Some h" "p \<noteq> q"
    and "\<not> (endswith p ''collision.tsx'' \<and> endswith q ''collision.tsx'')"
  shows "span g \<inter> span h = {}"
proof -
  have "table_inv (bm_tileSets big)"
    using assms(1,2) by (blast intro: table_inv_init table_inv_joinMaps)
  then have "g + MAX_TILES \<le> h \<or> h + MAX_TILES \<le> g"
    using assms(3-6) unfolding table_inv_def by blast
  then show ?thesis by (rule span_disjoint)
qed

theorem spans_disjoint_witness:
  "BigMap_init 1 1 ''world'' = Inr world_big
   \<and> joinMaps world_big [two_sets_map]
       = Inr (world_big\<lparr>bm_layers := [(Some ''Collision'', [[2]]), (Some ''Ground'', [[1026]])],
                         bm_tileSets := [(''a.tsx'', 513), (''b.tsx'', 1025)]\<rparr>)
   \<and> span 513 \<inter> span 1025 = {}"
proof -
  have i: "BigMap_init 1 1 ''world'' = Inr world_big" by code_simp
  have j: "joinMaps world_big [two_sets_map]
       = Inr (world_big\<lparr>bm_layers := [(Some ''Collision'', [[2]]), (Some ''Ground'', [[1026]])],
                         bm_tileSets := [(''a.tsx'', 513), (''b.tsx'', 1025)]\<rparr>)" by code_simp
  have "span 513 \<inter> span 1025 = {}"
    by (rule spans_disjoint [OF i j, of "''a.tsx''" _ "''b.tsx''"]) (simp_all add: endswith_def)
  with i j show ?thesis by blast
qed

text \<open>
  The claim C1 as stated fails: two maps that reach the collision tileset by two different
  paths leave two entries with the first gid 1 in the table, and the block of 1 meets
  itself.
\<close>

theorem spans_overlap_counterexample:
  "BigMap_init 1 1 ''world'' = Inr world_big
   \<and> joinMaps world_big [coll_map_a, coll_map_b]
       = Inr (world_big\<lparr>bm_layers := [(Some ''Collision'', [[1]])],
                         bm_tileSets := [(''../tilesets/collision.tsx'', 1), (''tilesets/collision.tsx'', 1)]\<rparr>)
   \<and> ''../tilesets/collision.tsx'' \<noteq> ''tilesets/collision.tsx''
   \<and> span 1 \<inter> span 1 \<noteq> {}"
proof -
  have i: "BigMap_init 1 1 ''world'' = Inr world_big" by code_simp
  have j: "joinMaps world_big [coll_map_a, coll_map_b]
       = Inr (world_big\<lparr>bm_layers := [(Some ''Collision'', [[1]])],
                         bm_tileSets := [(''../tilesets/collision.tsx'', 1), (''tilesets/collision.tsx'', 1)]\<rparr>)"
    by code_simp
  have "(1::int) \<in> span 1 \<inter> span 1" by (simp add: span_def MAX_TILES_def)
  then have "span 1 \<inter> span 1 \<noteq> {}" by blast
  with i j show ?thesis by simp
qed

text \<open>
  Claim C2 at a failing input. The map has the tilesets \<^verbatim>\<open>a.tsx\<close> (local first gid 1) and
  \<^verbatim>\<open>b.tsx\<close> (513) and no layer; both are new to the big map. \<^verbatim>\<open>a.tsx\<close> is not the one
  with the largest local first gid, so its entry is written by line 176, inside the loop
  over the layers, which never runs: the table keeps no entry for \<^verbatim>\<open>a.tsx\<close>, and
  \<^verbatim>\<open>b.tsx\<close> is given the first gid 513.
\<close>

theorem putMap_no_layer_drops_tileset:
  "putMap world_big no_layer_map = Inr (world_big\<lparr>bm_tileSets := [(''b.tsx'', 513)]\<rparr>, no_layer_map)
   \<and> map_of [(''b.tsx'', 513::int)] ''a.tsx'' = None"
  by code_simp

subsection \<open>Non-negative cells\<close>

lemma grid_nonneg_iff: "grid_nonneg g \<longleftrightarrow> (\<forall>row \<in> set g. \<forall>v \<in> set row. 0 \<le> v)"
  by (simp add: grid_nonneg_def list_all_iff)

lemma grid_nonneg_absolute: "grid_nonneg (absolute g)"
  by (auto simp: grid_nonneg_iff absolute_def)

lemma set_concat_replicate: "set (concat (replicate n xs)) \<subseteq> set xs"
  by (induction n) auto

lemma set_broadcast_row: "set (broadcast_row dw row) \<subseteq> set row"
  using set_concat_replicate by (auto simp: broadcast_row_def)

lemma grid_nonneg_broadcast:
  assumes "grid_nonneg src"
  shows "grid_nonneg (broadcast dh dw src)"
  unfolding grid_nonneg_iff
proof (intro ballI)
  fix row v assume row: "row \<in> set (broadcast dh dw src)" and v: "v \<in> set row"
  from row obtain r where r: "r \<in> set (if nrows src = dh then src else concat (replicate dh src))"
    and "row = broadcast_row dw r"
    unfolding broadcast_def by auto
  with v set_broadcast_row have "v \<in> set r" by blast
  moreover from r set_concat_replicate [of dh src] have "r \<in> set src"
    by (cases "nrows src = dh") auto
  ultimately show "0 \<le> v" using assms by (simp add: grid_nonneg_iff)
qed

lemma grid_nonneg_take: "grid_nonneg g \<Longrightarrow> grid_nonneg (take n g)"
  by (auto simp: grid_nonneg_iff dest: in_set_takeD)

lemma grid_nonneg_drop: "grid_nonneg g \<Longrightarrow> grid_nonneg (drop n g)"
  by (auto simp: grid_nonneg_iff dest: in_set_dropD)

lemma grid_nonneg_append: "grid_nonneg (g @ h) \<longleftrightarrow> grid_nonneg g \<and> grid_nonneg h"
  by (auto simp: grid_nonneg_iff)

lemma grid_nonneg_paste:
  assumes "grid_nonneg d" "grid_nonneg s"
  shows "grid_nonneg (map2 (\<lambda>drow srow. take c0 drow @ srow @ drop k drow) d s)"
  unfolding grid_nonneg_iff
proof (intro ballI)
  fix row v assume "row \<in> set (map2 (\<lambda>drow srow. take c0 drow @ srow @ drop k drow) d s)" "v \<in> set row"
  then obtain drow srow where z: "(drow, srow) \<in> set (zip d s)"
    and v: "v \<in> set (take c0 drow) \<or> v \<in> set srow \<or> v \<in> set (drop k drow)"
    by auto
  from z have "drow \<in> set d" "srow \<in> set s"
    by (auto dest: set_zip_leftD set_zip_rightD)
  with v have "\<exists>r \<in> set d \<union> set s. v \<in> set r"
    by (auto dest: in_set_takeD in_set_dropD)
  then show "0 \<le> v" using assms
    by (auto simp: grid_nonneg_iff)
qed

lemma if_Inr: "(if c then Inr x else Inl e) = Inr y \<Longrightarrow> c \<and> y = x"
  by (simp split: if_splits)

lemma set_slice_Inr:
  assumes "set_slice dest a b c e src = Inr d'"
  obtains r0 dh c0 dw where
    "r0 = slice_index a (nrows dest)" "dh = slice_index b (nrows dest) - r0"
    "c0 = slice_index c (ncols dest)" "dw = slice_index e (ncols dest) - c0"
    "nrows src = dh \<or> nrows src = 1" "ncols src = dw \<or> ncols src = 1"
    "d' = take r0 dest
          @ map2 (\<lambda>drow srow. take c0 drow @ srow @ drop (c0 + dw) drow)
              (take dh (drop r0 dest)) (broadcast dh dw src)
          @ drop (r0 + dh) dest"
proof -
  from assms have
    "((nrows src = slice_index b (nrows dest) - slice_index a (nrows dest) \<or> nrows src = 1) \<and>
      (ncols src = slice_index e (ncols dest) - slice_index c (ncols dest) \<or> ncols src = 1))
     \<and> d' = take (slice_index a (nrows dest)) dest
          @ map2 (\<lambda>drow srow. take (slice_index c (ncols dest)) drow @ srow
                      @ drop (slice_index c (ncols dest)
                              + (slice_index e (ncols dest) - slice_index c (ncols dest))) drow)
              (take (slice_index b (nrows dest) - slice_index a (nrows dest))
                 (drop (slice_index a (nrows dest)) dest))
              (broadcast (slice_index b (nrows dest) - slice_index a (nrows dest))
                 (slice_index e (ncols dest) - slice_index c (ncols dest)) src)
          @ drop (slice_index a (nrows dest)
                  + (slice_index b (nrows dest) - slice_index a (nrows dest))) dest"
    unfolding set_slice_def Let_def by (rule if_Inr)
  then show ?thesis using that by blast
qed

lemma set_slice_nonneg:
  assumes "set_slice d a b c e src = Inr d'" "grid_nonneg d" "grid_nonneg src"
  shows "grid_nonneg d'"
proof -
  from assms(1) obtain r0 dh c0 dw where
    d': "d' = take r0 d
          @ map2 (\<lambda>drow srow. take c0 drow @ srow @ drop (c0 + dw) drow)
              (take dh (drop r0 d)) (broadcast dh dw src)
          @ drop (r0 + dh) d"
    by (rule set_slice_Inr)
  show ?thesis
    unfolding d' grid_nonneg_append
    by (intro conjI grid_nonneg_take grid_nonneg_drop grid_nonneg_paste grid_nonneg_broadcast assms(2,3))
qed

lemma np_zeros_nonneg: "np_zeros h w = Inr z \<Longrightarrow> grid_nonneg z"
  by (auto simp: np_zeros_def grid_nonneg_iff split: if_splits)

lemma set_update_subset: "set (AList.update k v al) \<subseteq> insert (k, v) (set al)"
  by (induction al) auto

lemma place_layer_nonneg:
  assumes "place_layer big s e bl = Inr bl'" "list_all (\<lambda>(layer, g). grid_nonneg g) bl"
  shows "list_all (\<lambda>(layer, g). grid_nonneg g) bl'"
proof -
  obtain layer g where e: "e = (layer, g)" by (cases e)
  from assms(1) obtain d d' where
    d: "(case map_of bl layer of Some d \<Rightarrow> Inr d | None \<Rightarrow> np_zeros (bm_height big) (bm_width big)) = Inr d"
    and s: "set_slice d (pm_y s) (pm_y s + pm_height s) (pm_x s) (pm_x s + pm_width s) (absolute g) = Inr d'"
    and bl': "bl' = AList.update layer d' bl"
    by (auto simp: e place_layer.simps split: sum.splits)
  have "grid_nonneg d"
  proof (cases "map_of bl layer")
    case None
    with d show ?thesis by (simp add: np_zeros_nonneg)
  next
    case (Some d0)
    with d have "(layer, d) \<in> set bl" by (auto dest: map_of_SomeD)
    with assms(2) show ?thesis by (auto simp: list_all_iff)
  qed
  then have "grid_nonneg d'" using s grid_nonneg_absolute by (blast intro: set_slice_nonneg)
  then show ?thesis
    using assms(2) set_update_subset [of layer d' bl] by (auto simp: bl' list_all_iff)
qed

lemma putMap_nonneg:
  assumes "putMap big s = Inr (big', s')" "layers_nonneg big"
  shows "layers_nonneg big'"
proof -
  from assms(1) obtain ls bl where
    f: "fold_err (place_layer big s) ls (bm_layers big) = Inr bl" and b: "bm_layers big' = bl"
    by (elim putMap_Inr) simp
  have "list_all (\<lambda>(layer, g). grid_nonneg g) bl"
    by (rule fold_err_inv [OF f, where P = "list_all (\<lambda>(layer, g). grid_nonneg g)"])
       (use assms(2) in \<open>auto simp: layers_nonneg_def intro: place_layer_nonneg\<close>)
  then show ?thesis by (simp add: layers_nonneg_def b)
qed

lemma init_nonneg: "BigMap_init width height name = Inr big \<Longrightarrow> layers_nonneg big"
  by (auto simp: BigMap_init_def layers_nonneg_def fill_def grid_nonneg_iff split: sum.splits)

lemma joinMaps_nonneg:
  assumes "joinMaps big maps = Inr big'" "layers_nonneg big"
  shows "layers_nonneg big'"
  using assms
proof (induction maps arbitrary: big)
  case Nil
  then show ?case by simp
next
  case (Cons s maps)
  from Cons.prems(1) obtain b1 s1 where 1: "putMap big s = Inr (b1, s1)" "joinMaps b1 maps = Inr big'"
    by (auto split: sum.splits)
  from putMap_nonneg [OF 1(1) Cons.prems(2)] Cons.IH [OF 1(2)] show ?case by simp
qed

text \<open>
  Claim C10. Every cell of every layer of the big map is non-negative after the
  constructor, the property is kept by every \<^verbatim>\<open>putMap\<close> that returns, and so it holds
  after every step of the joining loop.
\<close>

theorem composite_cells_nonneg:
  "(BigMap_init width height name = Inr big0 \<longrightarrow> layers_nonneg big0)
   \<and> (layers_nonneg big \<and> putMap big s = Inr (big', s') \<longrightarrow> layers_nonneg big')
   \<and> (BigMap_init width height name = Inr big0 \<and> joinMaps big0 maps = Inr big'' \<longrightarrow> layers_nonneg big'')"
  using init_nonneg putMap_nonneg joinMaps_nonneg by blast

theorem composite_cells_nonneg_witness:
  "BigMap_init 1 1 ''world'' = Inr world_big \<and> layers_nonneg world_big
   \<and> putMap world_big two_sets_map
       = Inr (world_big\<lparr>bm_layers := [(Some ''Collision'', [[2]]), (Some ''Ground'', [[1026]])],
                         bm_tileSets := [(''a.tsx'', 513), (''b.tsx'', 1025)]\<rparr>,
              two_sets_map\<lparr>pm_layers := [(Some ''Ground'', [[1026]])]\<rparr>)
   \<and> layers_nonneg (world_big\<lparr>bm_layers := [(Some ''Collision'', [[2]]), (Some ''Ground'', [[1026]])],
                         bm_tileSets := [(''a.tsx'', 513), (''b.tsx'', 1025)]\<rparr>)
   \<and> joinMaps world_big [two_sets_map]
       = Inr (world_big\<lparr>bm_layers := [(Some ''Collision'', [[2]]), (Some ''Ground'', [[1026]])],
                         bm_tileSets := [(''a.tsx'', 513), (''b.tsx'', 1025)]\<rparr>)"
proof -
  have i: "BigMap_init 1 1 ''world'' = Inr world_big" by code_simp
  have p: "putMap world_big two_sets_map
       = Inr (world_big\<lparr>bm_layers := [(Some ''Collision'', [[2]]), (Some ''Ground'', [[1026]])],
                         bm_tileSets := [(''a.tsx'', 513), (''b.tsx'', 1025)]\<rparr>,
              two_sets_map\<lparr>pm_layers := [(Some ''Ground'', [[1026]])]\<rparr>)" by code_simp
  have j: "joinMaps world_big [two_sets_map]
       = Inr (world_big\<lparr>bm_layers := [(Some ''Collision'', [[2]]), (Some ''Ground'', [[1026]])],
                         bm_tileSets := [(''a.tsx'', 513), (''b.tsx'', 1025)]\<rparr>)" by code_simp
  from composite_cells_nonneg [of 1 1 "''world''" world_big world_big two_sets_map _ _ "[two_sets_map]"] i p j
  show ?thesis by blast
qed

subsection \<open>Slice assignment cell by cell\<close>

lemma has_shape_iff: "has_shape g h w \<longleftrightarrow> length g = h \<and> (\<forall>row \<in> set g. length row = w)"
  by (simp add: has_shape_def list_all_iff)

lemma has_shape_nth: "has_shape g h w \<Longrightarrow> r < h \<Longrightarrow> length (g ! r) = w"
  by (simp add: has_shape_iff)

lemma has_shape_ncols: "has_shape g h w \<Longrightarrow> 0 < h \<Longrightarrow> ncols g = w"
  by (cases g) (auto simp: has_shape_iff ncols_def)

lemma broadcast_same: "has_shape src h w \<Longrightarrow> broadcast h w src = src"
  by (simp add: broadcast_def has_shape_iff nrows_def broadcast_row_def map_idI)

text \<open>The rows between \<open>y\<close> and \<open>y + h\<close> of \<open>d\<close>, with the columns from \<open>x\<close> replaced.\<close>

lemma paste_row_nth:
  assumes "length drow = W" "length srow = w" "x + w \<le> W" "c < W"
  shows "(take x drow @ srow @ drop (x + w) drow) ! c
           = (if x \<le> c \<and> c < x + w then srow ! (c - x) else drow ! c)"
proof -
  consider "c < x" | "x \<le> c" "c < x + w" | "x + w \<le> c" by linarith
  then show ?thesis
  proof cases
    case 1
    then show ?thesis using assms by (simp add: nth_append)
  next
    case 2
    then have "c - x < w" by simp
    with 2 show ?thesis using assms by (simp add: nth_append)
  next
    case 3
    then have "\<not> c < x" "\<not> c - x < w" "x + w + (c - x - w) = c" by linarith+
    then show ?thesis using 3 assms by (simp add: nth_append)
  qed
qed

lemma paste_row_length:
  assumes "length drow = W" "length srow = w" "x + w \<le> W"
  shows "length (take x drow @ srow @ drop (x + w) drow) = W"
  using assms by simp

lemma paste_rows_nth:
  assumes "length d = H" "length src = h" "y + h \<le> H" "r < H"
  shows "(take y d @ map2 f (take h (drop y d)) src @ drop (y + h) d) ! r
           = (if y \<le> r \<and> r < y + h then f (d ! r) (src ! (r - y)) else d ! r)"
proof -
  consider "r < y" | "y \<le> r" "r < y + h" | "y + h \<le> r" by linarith
  then show ?thesis
  proof cases
    case 1
    then show ?thesis using assms by (simp add: nth_append)
  next
    case 2
    then have "r - y < h" by simp
    with 2 show ?thesis using assms by (simp add: nth_append)
  next
    case 3
    then have "\<not> r < y" "\<not> r - y < h" "y + h + (r - y - h) = r" by linarith+
    then show ?thesis using 3 assms by (simp add: nth_append)
  qed
qed

lemma paste_rows_length:
  assumes "length d = H" "length src = h" "y + h \<le> H"
  shows "length (take y d @ map2 f (take h (drop y d)) src @ drop (y + h) d) = H"
  using assms by simp


lemma slice_index_nat: "slice_index (int i) n = min i n"
  by (simp add: slice_index_def)

text \<open>\<^verbatim>\<open>dest[y:y+h, x:x+w] = src\<close> when the rectangle lies inside \<open>dest\<close> and \<open>src\<close> has its shape.\<close>

lemma set_slice_fits:
  assumes d: "has_shape d H W" and s: "has_shape src h w"
    and fit: "y + h \<le> H" "x + w \<le> W"
    and res: "set_slice d (int y) (int y + int h) (int x) (int x + int w) src = Inr d'"
  shows "has_shape d' H W \<and>
         (\<forall>r < H. \<forall>c < W.
            d' ! r ! c = (if y \<le> r \<and> r < y + h \<and> x \<le> c \<and> c < x + w
                          then src ! (r - y) ! (c - x) else d ! r ! c))"
proof -
  have len: "length d = H" "length src = h" using d s by (simp_all add: has_shape_iff)
  from res obtain r0 dh c0 dw where
    r0: "r0 = slice_index (int y) (nrows d)" and dh: "dh = slice_index (int y + int h) (nrows d) - r0"
    and c0: "c0 = slice_index (int x) (ncols d)" and dw: "dw = slice_index (int x + int w) (ncols d) - c0"
    and d': "d' = take r0 d
          @ map2 (\<lambda>drow srow. take c0 drow @ srow @ drop (c0 + dw) drow)
              (take dh (drop r0 d)) (broadcast dh dw src)
          @ drop (r0 + dh) d"
    by (rule set_slice_Inr)
  have yh: "int y + int h = int (y + h)" and xw: "int x + int w = int (x + w)" by simp_all
  have r0': "r0 = y" and dh': "dh = h"
    using fit(1) len by (simp_all add: r0 dh yh slice_index_nat nrows_def del: of_nat_add)
  show ?thesis
  proof (cases "H = 0")
    case True
    then have "d' = []" using len fit(1) by (simp add: d')
    with True show ?thesis by (simp add: has_shape_iff)
  next
    case False
    then have nc: "ncols d = W" using d by (simp add: has_shape_ncols)
    have c0': "c0 = x" and dw': "dw = w"
      using fit(2) by (simp_all add: c0 dw xw nc slice_index_nat del: of_nat_add)
    have bc: "broadcast h w src = src" using s by (rule broadcast_same)
    have d'': "d' = take y d
          @ map2 (\<lambda>drow srow. take x drow @ srow @ drop (x + w) drow) (take h (drop y d)) src
          @ drop (y + h) d"
      by (simp add: d' r0' dh' c0' dw' bc)
    have row: "d' ! r = (if y \<le> r \<and> r < y + h
                 then take x (d ! r) @ src ! (r - y) @ drop (x + w) (d ! r) else d ! r)"
      if "r < H" for r
      unfolding d'' using len fit(1) that by (rule paste_rows_nth)
    have lenr: "length (d ! r) = W" if "r < H" for r
      using d that by (rule has_shape_nth)
    have lens: "length (src ! k) = w" if "k < h" for k
      using s that by (rule has_shape_nth)
    have lend': "length d' = H"
      unfolding d'' using len fit(1) by (rule paste_rows_length)
    have "length (d' ! r) = W" if "r < H" for r
    proof (cases "y \<le> r \<and> r < y + h")
      case True
      then have k: "r - y < h" by linarith
      have "d' ! r = take x (d ! r) @ src ! (r - y) @ drop (x + w) (d ! r)"
        using row [OF that] True by auto
      then show ?thesis using lenr [OF that] lens [OF k] fit(2) by simp
    next
      case False
      then have "d' ! r = d ! r" using row [OF that] by auto
      then show ?thesis using lenr [OF that] by simp
    qed
    then have shape: "has_shape d' H W"
      using lend' by (auto simp: has_shape_iff in_set_conv_nth)
    have "d' ! r ! c = (if y \<le> r \<and> r < y + h \<and> x \<le> c \<and> c < x + w
                         then src ! (r - y) ! (c - x) else d ! r ! c)"
      if r: "r < H" and c: "c < W" for r c
    proof (cases "y \<le> r \<and> r < y + h")
      case True
      then have k: "r - y < h" by linarith
      have "d' ! r ! c = (take x (d ! r) @ src ! (r - y) @ drop (x + w) (d ! r)) ! c"
        using row [OF r] True by auto
      also have "\<dots> = (if x \<le> c \<and> c < x + w then src ! (r - y) ! (c - x) else d ! r ! c)"
        using lenr [OF r] lens [OF k] fit(2) c by (rule paste_row_nth)
      finally show ?thesis using True by auto
    next
      case False
      then have "d' ! r = d ! r" using row [OF r] by auto
      then show ?thesis using False by auto
    qed
    with shape show ?thesis by blast
  qed
qed

subsection \<open>What \<^verbatim>\<open>putMap\<close> does to the layers\<close>

lemma layer_shapes_remap: "layer_shapes (remap_layers ls i f n) = layer_shapes ls"
  by (auto simp: layer_shapes_def remap_layers_def reMap_cells)

lemma layer_shapes_negate:
  "layer_shapes (map (\<lambda>(layer, g). (layer, negate g)) ls) = layer_shapes ls"
  by (auto simp: layer_shapes_def negate_def)

lemma tileset_step_layers:
  assumes "tileset_step sg e (tbl, ls) = Inr (tbl', ls')"
  shows "ls' = ls \<or> (\<exists>i f n. py_int_opt (snd e) = Inr i \<and> ls' = remap_layers ls i f n)"
proof -
  obtain ts gid where e: "e = (ts, gid)" by (cases e)
  show ?thesis
  proof (cases "big_gid tbl ts")
    case None
    from tileset_step_new [OF assms [unfolded e] None] show ?thesis by (auto simp: e)
  next
    case (Some g)
    from tileset_step_known [OF assms [unfolded e] Some] show ?thesis
      by (auto simp: e split: if_splits)
  qed
qed

lemma tileset_step_shapes:
  assumes "tileset_step sg e (tbl, ls) = Inr (tbl', ls')"
  shows "layer_shapes ls' = layer_shapes ls"
  using tileset_step_layers [OF assms] by (auto simp: layer_shapes_remap)

lemma tileset_loop_shapes:
  assumes "fold_err (tileset_step sg) es (tbl, ls) = Inr (tbl', ls')"
  shows "layer_shapes ls' = layer_shapes ls"
proof -
  have "layer_shapes (snd (tbl', ls')) = layer_shapes ls"
    by (rule fold_err_inv [OF assms, where P = "\<lambda>st. layer_shapes (snd st) = layer_shapes ls"])
       (auto dest: tileset_step_shapes)
  then show ?thesis by simp
qed

lemma putMap_shapes:
  assumes "putMap big s = Inr (big', s')"
  shows "layer_shapes (pm_layers s') = layer_shapes (pm_layers s)"
proof -
  from assms obtain gids tbl ls where
    f: "fold_err (tileset_step (sort gids)) (pm_tileSets s)
       (bm_tileSets big, map (\<lambda>(layer, g). (layer, negate g)) (pm_layers s)) = Inr (tbl, ls)"
    and s': "s' = s\<lparr>pm_layers := ls\<rparr>"
    by (elim putMap_Inr)
  from tileset_loop_shapes [OF f] show ?thesis by (simp add: s' layer_shapes_negate)
qed

lemma layer_shapes_keys: "map fst (layer_shapes ls) = map fst ls"
  by (simp add: layer_shapes_def case_prod_unfold comp_def)

lemma layer_shapes_has_shape:
  "list_all (\<lambda>(layer, g). has_shape g h w) ls
     \<longleftrightarrow> list_all (\<lambda>(layer, sh). length sh = h \<and> list_all (\<lambda>n. n = w) sh) (layer_shapes ls)"
  by (induction ls) (auto simp: layer_shapes_def has_shape_def list_all_iff)

lemma wf_small_shapes:
  assumes "wf_small s" "layer_shapes (pm_layers s') = layer_shapes (pm_layers s)"
    "pm_height s' = pm_height s" "pm_width s' = pm_width s"
  shows "wf_small s'"
proof -
  have "map fst (pm_layers s') = map fst (pm_layers s)"
    using assms(2) layer_shapes_keys by metis
  then show ?thesis
    using assms unfolding wf_small_def layer_shapes_has_shape by simp
qed

lemma place_layer_Inr:
  assumes "place_layer big s (layer, g) bl = Inr bl'"
  obtains d d' where
    "(case map_of bl layer of Some d \<Rightarrow> Inr d | None \<Rightarrow> np_zeros (bm_height big) (bm_width big)) = Inr d"
    "set_slice d (pm_y s) (pm_y s + pm_height s) (pm_x s) (pm_x s + pm_width s) (absolute g) = Inr d'"
    "bl' = AList.update layer d' bl"
  using assms by (auto simp: place_layer.simps split: sum.splits)

lemma place_layers_fold:
  assumes "fold_err (place_layer big s) ls bl = Inr bl'" "distinct (map fst ls)"
  shows "(\<forall>layer. layer \<notin> fst ` set ls \<longrightarrow> map_of bl' layer = map_of bl layer) \<and>
         (\<forall>(layer, g) \<in> set ls. \<exists>d d'.
            (case map_of bl layer of Some d \<Rightarrow> Inr d
             | None \<Rightarrow> np_zeros (bm_height big) (bm_width big)) = Inr d \<and>
            set_slice d (pm_y s) (pm_y s + pm_height s) (pm_x s) (pm_x s + pm_width s) (absolute g) = Inr d' \<and>
            map_of bl' layer = Some d')"
  using assms
proof (induction ls arbitrary: bl)
  case Nil
  then show ?case by simp
next
  case (Cons e ls)
  obtain l0 g0 where e: "e = (l0, g0)" by (cases e)
  from Cons.prems(1) obtain bl1 where
    1: "place_layer big s (l0, g0) bl = Inr bl1" and 2: "fold_err (place_layer big s) ls bl1 = Inr bl'"
    by (auto simp: e split: sum.splits)
  from 1 obtain d0 d0' where
    d0: "(case map_of bl l0 of Some d \<Rightarrow> Inr d | None \<Rightarrow> np_zeros (bm_height big) (bm_width big)) = Inr d0"
    and d0': "set_slice d0 (pm_y s) (pm_y s + pm_height s) (pm_x s) (pm_x s + pm_width s) (absolute g0) = Inr d0'"
    and bl1: "bl1 = AList.update l0 d0' bl"
    by (rule place_layer_Inr)
  have m1: "map_of bl1 = (map_of bl)(l0 \<mapsto> d0')" by (simp add: bl1 update_conv')
  have dist: "distinct (map fst ls)" and notin: "l0 \<notin> fst ` set ls"
    using Cons.prems(2) by (auto simp: e)
  note IH = Cons.IH [OF 2 dist]
  have a: "map_of bl' layer = map_of bl layer" if "layer \<notin> fst ` set (e # ls)" for layer
    using IH that by (auto simp: e m1)
  have b0: "map_of bl' l0 = Some d0'" using IH notin by (simp add: m1)
  have b: "\<exists>d d'.
            (case map_of bl layer of Some d \<Rightarrow> Inr d
             | None \<Rightarrow> np_zeros (bm_height big) (bm_width big)) = Inr d \<and>
            set_slice d (pm_y s) (pm_y s + pm_height s) (pm_x s) (pm_x s + pm_width s) (absolute g) = Inr d' \<and>
            map_of bl' layer = Some d'" if "(layer, g) \<in> set (e # ls)" for layer g
  proof (cases "(layer, g) = (l0, g0)")
    case True
    then show ?thesis using d0 d0' b0 by auto
  next
    case False
    then have in_ls: "(layer, g) \<in> set ls" using that by (auto simp: e)
    then have "layer \<noteq> l0" using notin by force
    then have "map_of bl1 layer = map_of bl layer" by (simp add: m1)
    with IH in_ls show ?thesis by fastforce
  qed
  from a b show ?case by blast
qed


lemma np_zeros_shape:
  "0 \<le> h \<Longrightarrow> 0 \<le> w \<Longrightarrow> np_zeros h w = Inr (replicate (nat h) (replicate (nat w) 0))"
  by (simp add: np_zeros_def)

lemma layer_before_eq:
  assumes "wf_big big"
  shows "(case map_of (bm_layers big) layer of Some d \<Rightarrow> Inr d
          | None \<Rightarrow> np_zeros (bm_height big) (bm_width big)) = Inr (layer_before big layer)"
  using assms by (simp add: layer_before_def wf_big_def np_zeros_shape split: option.splits)

lemma layer_before_shape:
  assumes "wf_big big"
  shows "has_shape (layer_before big layer) (nat (bm_height big)) (nat (bm_width big))"
proof (cases "map_of (bm_layers big) layer")
  case None
  then show ?thesis by (simp add: layer_before_def has_shape_iff)
next
  case (Some d)
  then have "(layer, d) \<in> set (bm_layers big)" by (rule map_of_SomeD)
  with assms Some show ?thesis by (auto simp: layer_before_def wf_big_def list_all_iff)
qed

lemma absolute_shape: "has_shape g h w \<Longrightarrow> has_shape (absolute g) h w"
  by (simp add: has_shape_iff absolute_def)

lemma absolute_nth: "r < length g \<Longrightarrow> c < length (g ! r) \<Longrightarrow> absolute g ! r ! c = \<bar>g ! r ! c\<bar>"
  by (simp add: absolute_def)

lemma putMap_overlay:
  assumes "wf_big big" "wf_small sMap" "fits big sMap" "putMap big sMap = Inr (big', sMap')"
  shows "map fst (pm_layers sMap') = map fst (pm_layers sMap)
       \<and> (\<forall>(layer, g) \<in> set (pm_layers sMap'). \<exists>d'.
             map_of (bm_layers big') layer = Some d' \<and>
             has_shape d' (nat (bm_height big)) (nat (bm_width big)) \<and>
             (\<forall>r < nat (bm_height big). \<forall>c < nat (bm_width big).
                d' ! r ! c = (if in_rect sMap r c
                              then \<bar>g ! (r - nat (pm_y sMap)) ! (c - nat (pm_x sMap))\<bar>
                              else layer_before big layer ! r ! c)))
       \<and> (\<forall>layer. layer \<notin> fst ` set (pm_layers sMap') \<longrightarrow>
             map_of (bm_layers big') layer = map_of (bm_layers big) layer)"
proof -
  from assms(4) obtain ls bl where
    f: "fold_err (place_layer big sMap) ls (bm_layers big) = Inr bl"
    and big': "bm_layers big' = bl" and s': "pm_layers sMap' = ls"
    by (elim putMap_Inr) simp
  have sh: "layer_shapes ls = layer_shapes (pm_layers sMap)"
    using putMap_shapes [OF assms(4)] by (simp add: s')
  then have keys: "map fst ls = map fst (pm_layers sMap)"
    using layer_shapes_keys by metis
  have dist: "distinct (map fst ls)"
    using assms(2) unfolding keys wf_small_def by (elim conjE)
  have "list_all (\<lambda>(layer, g). has_shape g (nat (pm_height sMap)) (nat (pm_width sMap))) ls"
    using assms(2) unfolding wf_small_def layer_shapes_has_shape sh by (elim conjE)
  then have shapes: "has_shape g (nat (pm_height sMap)) (nat (pm_width sMap))"
    if "(layer, g) \<in> set ls" for layer g
    using that unfolding list_all_iff by blast
  note pl = place_layers_fold [OF f dist]
  let ?H = "nat (bm_height big)" and ?W = "nat (bm_width big)"
  let ?y = "nat (pm_y sMap)" and ?x = "nat (pm_x sMap)"
  let ?h = "nat (pm_height sMap)" and ?w = "nat (pm_width sMap)"
  have nn: "0 \<le> pm_y sMap" "0 \<le> pm_x sMap" "0 \<le> pm_height sMap" "0 \<le> pm_width sMap"
    using assms(2,3) by (simp_all add: fits_def wf_small_def)
  have fit: "?y + ?h \<le> ?H" "?x + ?w \<le> ?W"
    using assms(3) nn unfolding fits_def by linarith+
  have cell: "\<exists>d'. map_of bl layer = Some d' \<and> has_shape d' ?H ?W \<and>
             (\<forall>r < ?H. \<forall>c < ?W.
                d' ! r ! c = (if in_rect sMap r c then \<bar>g ! (r - ?y) ! (c - ?x)\<bar>
                              else layer_before big layer ! r ! c))"
    if lg: "(layer, g) \<in> set ls" for layer g
  proof -
    from pl have "\<forall>(layer, g) \<in> set ls. \<exists>d d'.
            (case map_of (bm_layers big) layer of Some d \<Rightarrow> Inr d
             | None \<Rightarrow> np_zeros (bm_height big) (bm_width big)) = Inr d \<and>
            set_slice d (pm_y sMap) (pm_y sMap + pm_height sMap) (pm_x sMap) (pm_x sMap + pm_width sMap) (absolute g) = Inr d' \<and>
            map_of bl layer = Some d'"
      by (rule conjunct2)
    from this [THEN bspec, OF lg] obtain d d' where
      d: "(case map_of (bm_layers big) layer of Some d \<Rightarrow> Inr d
           | None \<Rightarrow> np_zeros (bm_height big) (bm_width big)) = Inr d"
      and sl: "set_slice d (pm_y sMap) (pm_y sMap + pm_height sMap)
                 (pm_x sMap) (pm_x sMap + pm_width sMap) (absolute g) = Inr d'"
      and m: "map_of bl layer = Some d'"
      unfolding prod.case by blast
    from d have d_eq: "d = layer_before big layer"
      using layer_before_eq [OF assms(1), of layer] by simp
    have dsh: "has_shape d ?H ?W" unfolding d_eq using assms(1) by (rule layer_before_shape)
    have gsh: "has_shape g ?h ?w" using lg by (rule shapes)
    then have ash: "has_shape (absolute g) ?h ?w" by (rule absolute_shape)
    have sl': "set_slice d (int ?y) (int ?y + int ?h) (int ?x) (int ?x + int ?w) (absolute g) = Inr d'"
      using sl nn by simp
    note ss = set_slice_fits [OF dsh ash fit sl']
    note ss2 = ss [THEN conjunct2, rule_format]
    have "d' ! r ! c = (if in_rect sMap r c then \<bar>g ! (r - ?y) ! (c - ?x)\<bar>
                        else layer_before big layer ! r ! c)"
      if r: "r < ?H" and c: "c < ?W" for r c
    proof (cases "in_rect sMap r c")
      case True
      then have in': "?y \<le> r \<and> r < ?y + ?h \<and> ?x \<le> c \<and> c < ?x + ?w"
        using nn by (auto simp: in_rect_def)
      then have k: "r - ?y < ?h" "c - ?x < ?w" by linarith+
      have "length g = ?h" "length (g ! (r - ?y)) = ?w"
        using gsh k(1) by (simp_all add: has_shape_iff)
      then have "absolute g ! (r - ?y) ! (c - ?x) = \<bar>g ! (r - ?y) ! (c - ?x)\<bar>"
        using k by (intro absolute_nth) simp_all
      moreover have "d' ! r ! c = absolute g ! (r - ?y) ! (c - ?x)"
        using ss2 [OF r c] in' by (simp only: if_True simp_thms)
      ultimately show ?thesis using True by simp
    next
      case False
      then have "\<not> (?y \<le> r \<and> r < ?y + ?h \<and> ?x \<le> c \<and> c < ?x + ?w)"
        using nn by (auto simp: in_rect_def)
      then have "d' ! r ! c = d ! r ! c" using ss2 [OF r c] by (simp only: if_False simp_thms)
      then show ?thesis using False by (simp add: d_eq)
    qed
    with m ss [THEN conjunct1] show ?thesis by blast
  qed
  show ?thesis
    unfolding big' s'
  proof (intro conjI)
    show "map fst ls = map fst (pm_layers sMap)" by (rule keys)
    show "\<forall>(layer, g) \<in> set ls. \<exists>d'. map_of bl layer = Some d' \<and> has_shape d' ?H ?W \<and>
             (\<forall>r < ?H. \<forall>c < ?W.
                d' ! r ! c = (if in_rect sMap r c then \<bar>g ! (r - ?y) ! (c - ?x)\<bar>
                              else layer_before big layer ! r ! c))"
    proof (rule ballI)
      fix e assume e: "e \<in> set ls"
      obtain layer g where "e = (layer, g)" by (cases e)
      with e cell [of layer g]
      show "case e of (layer, g) \<Rightarrow> \<exists>d'. map_of bl layer = Some d' \<and> has_shape d' ?H ?W \<and>
             (\<forall>r < ?H. \<forall>c < ?W.
                d' ! r ! c = (if in_rect sMap r c then \<bar>g ! (r - ?y) ! (c - ?x)\<bar>
                              else layer_before big layer ! r ! c))"
        by simp
    qed
    show "\<forall>layer. layer \<notin> fst ` set ls \<longrightarrow> map_of bl layer = map_of (bm_layers big) layer"
      using pl by (rule conjunct1)
  qed
qed

lemma place_layer_shape:
  assumes "place_layer big s (layer, g) bl = Inr bl'"
    and "wf_big big" "fits big s" "0 \<le> pm_height s" "0 \<le> pm_width s"
    and "has_shape g (nat (pm_height s)) (nat (pm_width s))"
    and "list_all (\<lambda>(layer, g). has_shape g (nat (bm_height big)) (nat (bm_width big))) bl"
  shows "list_all (\<lambda>(layer, g). has_shape g (nat (bm_height big)) (nat (bm_width big))) bl'"
proof -
  let ?H = "nat (bm_height big)" and ?W = "nat (bm_width big)"
  let ?y = "nat (pm_y s)" and ?x = "nat (pm_x s)"
  let ?h = "nat (pm_height s)" and ?w = "nat (pm_width s)"
  from assms(1) obtain d d' where
    d: "(case map_of bl layer of Some d \<Rightarrow> Inr d | None \<Rightarrow> np_zeros (bm_height big) (bm_width big)) = Inr d"
    and sl: "set_slice d (pm_y s) (pm_y s + pm_height s) (pm_x s) (pm_x s + pm_width s) (absolute g) = Inr d'"
    and bl': "bl' = AList.update layer d' bl"
    by (rule place_layer_Inr)
  have nn: "0 \<le> pm_y s" "0 \<le> pm_x s" using assms(3) by (simp_all add: fits_def)
  have fit: "?y + ?h \<le> ?H" "?x + ?w \<le> ?W"
    using assms(3,4,5) nn unfolding fits_def by linarith+
  have dsh: "has_shape d ?H ?W"
  proof (cases "map_of bl layer")
    case None
    with d assms(2) have "d = replicate ?H (replicate ?W 0)"
      by (simp add: wf_big_def np_zeros_shape)
    then show ?thesis by (simp add: has_shape_iff)
  next
    case (Some d0)
    with d have "(layer, d) \<in> set bl" by (auto dest: map_of_SomeD)
    with assms(7) show ?thesis by (auto simp: list_all_iff)
  qed
  have ash: "has_shape (absolute g) ?h ?w" using assms(6) by (rule absolute_shape)
  have sl': "set_slice d (int ?y) (int ?y + int ?h) (int ?x) (int ?x + int ?w) (absolute g) = Inr d'"
    using sl nn assms(4,5) by simp
  from set_slice_fits [OF dsh ash fit sl'] have "has_shape d' ?H ?W" by (rule conjunct1)
  then show ?thesis
    using assms(7) set_update_subset [of layer d' bl] by (auto simp: bl' list_all_iff)
qed

lemma putMap_wf_big:
  assumes "wf_big big" "wf_small s" "fits big s" "putMap big s = Inr (big', s')"
  shows "wf_big big' \<and> bm_height big' = bm_height big \<and> bm_width big' = bm_width big"
proof -
  from assms(4) obtain tbl ls bl where
    f: "fold_err (place_layer big s) ls (bm_layers big) = Inr bl"
    and big': "big' = big\<lparr>bm_layers := bl, bm_tileSets := tbl, bm_objects := bm_objects big @ pm_objects s\<rparr>"
    and s': "s' = s\<lparr>pm_layers := ls\<rparr>"
    by (elim putMap_Inr)
  have sh: "layer_shapes ls = layer_shapes (pm_layers s)"
    using putMap_shapes [OF assms(4)] by (simp add: s')
  have "list_all (\<lambda>(layer, g). has_shape g (nat (pm_height s)) (nat (pm_width s))) ls"
    using assms(2) unfolding wf_small_def layer_shapes_has_shape sh by (elim conjE)
  then have shapes: "has_shape g (nat (pm_height s)) (nat (pm_width s))"
    if "(layer, g) \<in> set ls" for layer g
    using that unfolding list_all_iff by blast
  have nn: "0 \<le> pm_height s" "0 \<le> pm_width s" using assms(2) by (simp_all add: wf_small_def)
  have "list_all (\<lambda>(layer, g). has_shape g (nat (bm_height big)) (nat (bm_width big))) bl"
  proof (rule fold_err_inv [OF f])
    show "list_all (\<lambda>(layer, g). has_shape g (nat (bm_height big)) (nat (bm_width big))) (bm_layers big)"
      using assms(1) by (simp add: wf_big_def)
  next
    fix x t t'
    assume x: "x \<in> set ls"
      and t: "list_all (\<lambda>(layer, g). has_shape g (nat (bm_height big)) (nat (bm_width big))) t"
      and p: "place_layer big s x t = Inr t'"
    obtain layer g where xe: "x = (layer, g)" by (cases x)
    from p have p': "place_layer big s (layer, g) t = Inr t'" by (simp add: xe)
    from x have "has_shape g (nat (pm_height s)) (nat (pm_width s))"
      unfolding xe by (rule shapes)
    from place_layer_shape [OF p' assms(1,3) nn this t]
    show "list_all (\<lambda>(layer, g). has_shape g (nat (bm_height big)) (nat (bm_width big))) t'" .
  qed
  then show ?thesis using assms(1) by (simp add: wf_big_def big')
qed

text \<open>
  Claim C4. Let the small map be placed inside the big map. For every layer of the small
  map, \<^verbatim>\<open>putMap\<close> leaves in the big map a layer of that name in which every cell of the
  rectangle \<^verbatim>\<open>[y : y+height, x : x+width]\<close> holds the absolute value of the cell of the
  incoming grid (as remapped), whatever the big map held there before. Outside the
  rectangle the layer is as it was, all zero when the name was new to the big map. The
  other layers of the big map are untouched, and the big map keeps its shape. So the last
  map written wins: when a second map \<open>mapB\<close> is merged after this one, every cell of its
  rectangle holds the value of \<open>mapB\<close>, whatever this map wrote there.
\<close>

theorem overlay_last_write_wins:
  assumes "wf_big big" "wf_small sMap" "fits big sMap" "putMap big sMap = Inr (big', sMap')"
  shows "map fst (pm_layers sMap') = map fst (pm_layers sMap)
       \<and> (\<forall>(layer, g) \<in> set (pm_layers sMap'). \<exists>d'.
             map_of (bm_layers big') layer = Some d' \<and>
             has_shape d' (nat (bm_height big)) (nat (bm_width big)) \<and>
             (\<forall>r < nat (bm_height big). \<forall>c < nat (bm_width big).
                d' ! r ! c = (if in_rect sMap r c
                              then \<bar>g ! (r - nat (pm_y sMap)) ! (c - nat (pm_x sMap))\<bar>
                              else layer_before big layer ! r ! c)))
       \<and> (\<forall>layer. layer \<notin> fst ` set (pm_layers sMap') \<longrightarrow>
             map_of (bm_layers big') layer = map_of (bm_layers big) layer)
       \<and> wf_big big'
       \<and> (\<forall>mapB big'' mapB'.
             wf_small mapB \<and> fits big' mapB \<and> putMap big' mapB = Inr (big'', mapB') \<longrightarrow>
             (\<forall>(layer, g) \<in> set (pm_layers mapB'). \<exists>d''.
                map_of (bm_layers big'') layer = Some d'' \<and>
                (\<forall>r < nat (bm_height big). \<forall>c < nat (bm_width big). in_rect mapB r c \<longrightarrow>
                   d'' ! r ! c = \<bar>g ! (r - nat (pm_y mapB)) ! (c - nat (pm_x mapB))\<bar>)))"
proof -
  note one = putMap_overlay [OF assms]
  note wf = putMap_wf_big [OF assms]
  have two: "\<forall>(layer, g) \<in> set (pm_layers mapB'). \<exists>d''.
                map_of (bm_layers big'') layer = Some d'' \<and>
                (\<forall>r < nat (bm_height big). \<forall>c < nat (bm_width big). in_rect mapB r c \<longrightarrow>
                   d'' ! r ! c = \<bar>g ! (r - nat (pm_y mapB)) ! (c - nat (pm_x mapB))\<bar>)"
    if b: "wf_small mapB" "fits big' mapB" "putMap big' mapB = Inr (big'', mapB')"
    for mapB big'' mapB'
  proof (rule ballI)
    fix e assume e: "e \<in> set (pm_layers mapB')"
    obtain layer g where eq: "e = (layer, g)" by (cases e)
    note ov = putMap_overlay [OF wf [THEN conjunct1] b, THEN conjunct2, THEN conjunct1, THEN bspec, OF e]
    then obtain d'' where m: "map_of (bm_layers big'') layer = Some d''"
      and cells: "\<forall>r < nat (bm_height big'). \<forall>c < nat (bm_width big').
                d'' ! r ! c = (if in_rect mapB r c
                              then \<bar>g ! (r - nat (pm_y mapB)) ! (c - nat (pm_x mapB))\<bar>
                              else layer_before big' layer ! r ! c)"
      unfolding eq prod.case by blast
    have "d'' ! r ! c = \<bar>g ! (r - nat (pm_y mapB)) ! (c - nat (pm_x mapB))\<bar>"
      if "r < nat (bm_height big)" "c < nat (bm_width big)" "in_rect mapB r c" for r c
      using cells [rule_format, of r c] that wf by simp
    with m show "case e of (layer, g) \<Rightarrow> \<exists>d''.
                map_of (bm_layers big'') layer = Some d'' \<and>
                (\<forall>r < nat (bm_height big). \<forall>c < nat (bm_width big). in_rect mapB r c \<longrightarrow>
                   d'' ! r ! c = \<bar>g ! (r - nat (pm_y mapB)) ! (c - nat (pm_x mapB))\<bar>)"
      unfolding eq prod.case by blast
  qed
  from one wf [THEN conjunct1] two show ?thesis by blast
qed

theorem overlay_last_write_wins_witness:
  "wf_big world3 \<and> wf_small ground_map \<and> fits world3 ground_map
   \<and> putMap world3 ground_map
       = Inr (world3\<lparr>bm_layers := [(Some ''Collision'', [[2, 2, 2], [2, 2, 2], [2, 2, 2]]),
                                      (Some ''Ground'', [[0, 0, 0], [0, 513, 514], [0, 515, 0]])],
                       bm_tileSets := [(''a.tsx'', 513)]\<rparr>,
              ground_map\<lparr>pm_layers := [(Some ''Ground'', [[513, 514], [515, 0]])]\<rparr>)
   \<and> map fst (pm_layers (ground_map\<lparr>pm_layers := [(Some ''Ground'', [[513, 514], [515, 0]])]\<rparr>))
       = map fst (pm_layers ground_map)"
proof -
  have a: "wf_big world3" by code_simp
  have b: "wf_small ground_map" by code_simp
  have c: "fits world3 ground_map" by code_simp
  have p: "putMap world3 ground_map
       = Inr (world3\<lparr>bm_layers := [(Some ''Collision'', [[2, 2, 2], [2, 2, 2], [2, 2, 2]]),
                                      (Some ''Ground'', [[0, 0, 0], [0, 513, 514], [0, 515, 0]])],
                       bm_tileSets := [(''a.tsx'', 513)]\<rparr>,
              ground_map\<lparr>pm_layers := [(Some ''Ground'', [[513, 514], [515, 0]])]\<rparr>)"
    by code_simp
  from overlay_last_write_wins [OF a b c p] a b c p show ?thesis by blast
qed












subsection \<open>The collision layer\<close>

lemma reMap_nonneg_id: "grid_nonneg g \<Longrightarrow> 1 \<le> i \<Longrightarrow> reMap g i f n = g"
proof -
  assume a: "grid_nonneg g" "1 \<le> i"
  have "map (map (remap_cell i f n)) g = map (map (\<lambda>v. v)) g"
    using a by (intro map_cong refl) (simp add: remap_cell_nonneg grid_nonneg_iff)
  then show ?thesis by (simp add: reMap_cells)
qed

lemma map_of_remap_layers:
  "map_of (remap_layers ls i f n) layer = map_option (\<lambda>g. reMap g i f n) (map_of ls layer)"
  by (induction ls) (auto simp: remap_layers_def)

lemma map_of_negated:
  "map_of (map (\<lambda>(layer, g). (layer, negate g)) ls) layer = map_option negate (map_of ls layer)"
  by (induction ls) auto

lemma zeros_nonneg: "grid_nonneg (replicate h (replicate w 0))"
  by (simp add: grid_nonneg_iff)

lemma negate_zeros: "negate (replicate h (replicate w 0)) = replicate h (replicate w 0)"
  by (simp add: negate_def)

lemma tileset_step_zeros:
  assumes "tileset_step sg e (tbl, ls) = Inr (tbl', ls')"
    and "\<And>i. py_int_opt (snd e) = Inr i \<Longrightarrow> 1 \<le> i"
    and "map_of ls layer = Some (replicate h (replicate w 0))"
  shows "map_of ls' layer = Some (replicate h (replicate w 0))"
  using tileset_step_layers [OF assms(1)] assms(2,3)
  by (auto simp: map_of_remap_layers reMap_nonneg_id zeros_nonneg)

lemma tileset_loop_zeros:
  assumes "fold_err (tileset_step sg) es (tbl, ls) = Inr (tbl', ls')"
    and "\<And>e i. e \<in> set es \<Longrightarrow> py_int_opt (snd e) = Inr i \<Longrightarrow> 1 \<le> i"
    and "map_of ls layer = Some (replicate h (replicate w 0))"
  shows "map_of ls' layer = Some (replicate h (replicate w 0))"
proof -
  have "map_of (snd (tbl', ls')) layer = Some (replicate h (replicate w 0))"
  proof (rule fold_err_inv [OF assms(1), where P = "\<lambda>st. map_of (snd st) layer = Some (replicate h (replicate w 0))"])
    show "map_of (snd (tbl, ls)) layer = Some (replicate h (replicate w 0))"
      using assms(3) by simp
  next
    fix x t t'
    assume x: "x \<in> set es" and t: "map_of (snd t) layer = Some (replicate h (replicate w 0))"
      and st: "tileset_step sg x t = Inr t'"
    obtain a b where [simp]: "t = (a, b)" by (cases t)
    obtain a' b' where [simp]: "t' = (a', b')" by (cases t')
    from st have "tileset_step sg x (a, b) = Inr (a', b')" by simp
    from tileset_step_zeros [OF this assms(2) [OF x], of layer h w] t
    show "map_of (snd t') layer = Some (replicate h (replicate w 0))" by simp
  qed
  then show ?thesis by simp
qed

lemma putMap_zeros:
  assumes "putMap big s = Inr (big', s')"
    and "\<forall>(p, gid) \<in> set (pm_tileSets s). \<forall>i. py_int_opt gid = Inr i \<longrightarrow> 1 \<le> i"
    and "map_of (pm_layers s) layer = Some (replicate h (replicate w 0))"
  shows "map_of (pm_layers s') layer = Some (replicate h (replicate w 0))"
proof -
  from assms(1) obtain gids tbl ls where
    f: "fold_err (tileset_step (sort gids)) (pm_tileSets s)
       (bm_tileSets big, map (\<lambda>(layer, g). (layer, negate g)) (pm_layers s)) = Inr (tbl, ls)"
    and s': "s' = s\<lparr>pm_layers := ls\<rparr>"
    by (elim putMap_Inr)
  have gid: "1 \<le> i" if "e \<in> set (pm_tileSets s)" "py_int_opt (snd e) = Inr i" for e i
    using assms(2) that by (cases e) auto
  have "map_of (map (\<lambda>(layer, g). (layer, negate g)) (pm_layers s)) layer
          = Some (replicate h (replicate w 0))"
    by (simp add: map_of_negated assms(3) negate_zeros)
  from tileset_loop_zeros [OF f gid this] show ?thesis by (simp add: s')
qed

lemma BigMap_init_layers:
  assumes "0 \<le> width" "0 \<le> height"
  shows "BigMap_init width height name
    = Inr \<lparr>bm_height = height, bm_width = width, bm_name = name,
           bm_layers = [(Some ''Collision'', replicate (nat height) (replicate (nat width) 2))],
           bm_objects = [], bm_tileSets = []\<rparr>"
  using assms by (simp add: BigMap_init_def np_zeros_shape fill_def)

lemma grid_eqI:
  assumes "has_shape d h w" "has_shape e h w" "\<And>r c. r < h \<Longrightarrow> c < w \<Longrightarrow> d ! r ! c = e ! r ! c"
  shows "d = e"
proof (rule nth_equalityI)
  show "length d = length e" using assms(1,2) by (simp add: has_shape_iff)
  fix r assume "r < length d"
  then have r: "r < h" using assms(1) by (simp add: has_shape_iff)
  show "d ! r = e ! r"
  proof (rule nth_equalityI)
    show "length (d ! r) = length (e ! r)"
      using assms(1,2) r by (simp add: has_shape_nth)
    fix c assume "c < length (d ! r)"
    then have "c < w" using assms(1) r by (simp add: has_shape_nth)
    with r show "d ! r ! c = e ! r ! c" by (rule assms(3))
  qed
qed


lemma collision_with_hole_cells:
  "collision_with_hole
     = map (\<lambda>r. map (\<lambda>c. if 3 \<le> r \<and> r < 7 \<and> 2 \<le> c \<and> c < 6 then 0 else 2) [0..<10]) [0..<10]"
  by code_simp

lemma collision_with_hole_nth:
  "r < 10 \<Longrightarrow> c < 10 \<Longrightarrow>
     collision_with_hole ! r ! c = (if 3 \<le> r \<and> r < 7 \<and> 2 \<le> c \<and> c < 6 then 0 else 2)"
  by (simp add: collision_with_hole_cells)

lemma collision_with_hole_shape: "has_shape collision_with_hole 10 10"
  by (simp add: collision_with_hole_cells has_shape_iff)

text \<open>
  Claim C8. The constructor, for non-negative dimensions, returns a big map whose only
  layer is \<^verbatim>\<open>Collision\<close>, of the size of the big map and filled with 2. And for the big
  map of ten by ten tiles: merging any map of four by four tiles placed at \<open>(2, 3)\<close> whose
  collision layer is all zero (its layers having its declared shape, and its tilesets
  first gids from 1 on, as Tiled writes them) leaves the collision layer of the big map
  with zeros at the rows 3 to 6 and the columns 2 to 5, and 2 everywhere else.
\<close>

theorem collision_layer_example:
  "(0 \<le> width \<and> 0 \<le> height \<longrightarrow>
      (\<exists>big. BigMap_init width height name = Inr big \<and>
         bm_layers big = [(Some ''Collision'', replicate (nat height) (replicate (nat width) 2))]))
   \<and> (BigMap_init 10 10 name = Inr big10 \<and>
       pm_x sMap = 2 \<and> pm_y sMap = 3 \<and> pm_width sMap = 4 \<and> pm_height sMap = 4 \<and> wf_small sMap \<and>
       map_of (pm_layers sMap) (Some ''Collision'') = Some (replicate 4 (replicate 4 0)) \<and>
       (\<forall>(p, gid) \<in> set (pm_tileSets sMap). \<forall>i. py_int_opt gid = Inr i \<longrightarrow> 1 \<le> i) \<and>
       putMap big10 sMap = Inr (big', sMap')
       \<longrightarrow> bm_layers big10 = [(Some ''Collision'', replicate 10 (replicate 10 2))]
         \<and> map_of (bm_layers big') (Some ''Collision'') = Some collision_with_hole)"
proof (intro conjI impI)
  assume "0 \<le> width \<and> 0 \<le> height"
  then show "\<exists>big. BigMap_init width height name = Inr big \<and>
         bm_layers big = [(Some ''Collision'', replicate (nat height) (replicate (nat width) 2))]"
    by (simp add: BigMap_init_layers)
next
  assume a: "BigMap_init 10 10 name = Inr big10 \<and>
       pm_x sMap = 2 \<and> pm_y sMap = 3 \<and> pm_width sMap = 4 \<and> pm_height sMap = 4 \<and> wf_small sMap \<and>
       map_of (pm_layers sMap) (Some ''Collision'') = Some (replicate 4 (replicate 4 0)) \<and>
       (\<forall>(p, gid) \<in> set (pm_tileSets sMap). \<forall>i. py_int_opt gid = Inr i \<longrightarrow> 1 \<le> i) \<and>
       putMap big10 sMap = Inr (big', sMap')"
  then have init: "BigMap_init 10 10 name = Inr big10"
    and pos: "pm_x sMap = 2" "pm_y sMap = 3" "pm_width sMap = 4" "pm_height sMap = 4"
    and wfs: "wf_small sMap"
    and zero: "map_of (pm_layers sMap) (Some ''Collision'') = Some (replicate 4 (replicate 4 0))"
    and gids: "\<forall>(p, gid) \<in> set (pm_tileSets sMap). \<forall>i. py_int_opt gid = Inr i \<longrightarrow> 1 \<le> i"
    and put: "putMap big10 sMap = Inr (big', sMap')"
    by blast+
  have big10: "big10 = \<lparr>bm_height = 10, bm_width = 10, bm_name = name,
           bm_layers = [(Some ''Collision'', replicate 10 (replicate 10 2))],
           bm_objects = [], bm_tileSets = []\<rparr>"
    using init by (simp add: BigMap_init_layers)
  then show 1: "bm_layers big10 = [(Some ''Collision'', replicate 10 (replicate 10 2))]" by simp
  have wfb: "wf_big big10" by (simp add: big10 wf_big_def has_shape_iff)
  have fit: "fits big10 sMap" by (simp add: big10 fits_def pos)
  have before: "layer_before big10 (Some ''Collision'') = replicate 10 (replicate 10 2)"
    by (simp add: layer_before_def 1)
  have "map_of (pm_layers sMap') (Some ''Collision'') = Some (replicate 4 (replicate 4 0))"
    using put gids zero by (rule putMap_zeros)
  then have mem: "(Some ''Collision'', replicate 4 (replicate 4 0)) \<in> set (pm_layers sMap')"
    by (rule map_of_SomeD)
  note ov = putMap_overlay [OF wfb wfs fit put, THEN conjunct2, THEN conjunct1, THEN bspec, OF mem]
  then obtain d' where m: "map_of (bm_layers big') (Some ''Collision'') = Some d'"
    and sh0: "has_shape d' (nat (bm_height big10)) (nat (bm_width big10))"
    and cells0: "\<forall>r < nat (bm_height big10). \<forall>c < nat (bm_width big10).
        d' ! r ! c = (if in_rect sMap r c
                      then \<bar>replicate 4 (replicate 4 (0::int)) ! (r - nat (pm_y sMap)) ! (c - nat (pm_x sMap))\<bar>
                      else layer_before big10 (Some ''Collision'') ! r ! c)"
    unfolding prod.case by blast
  have sh: "has_shape d' 10 10" using sh0 by (simp add: big10)
  have "d' = collision_with_hole"
  proof (rule grid_eqI [OF sh collision_with_hole_shape])
    fix r c :: nat assume r: "r < 10" and c: "c < 10"
    have inr: "in_rect sMap r c \<longleftrightarrow> 3 \<le> r \<and> r < 7 \<and> 2 \<le> c \<and> c < 6"
      by (auto simp: in_rect_def pos)
    from cells0 r c have cell: "d' ! r ! c = (if in_rect sMap r c
                      then \<bar>replicate 4 (replicate 4 (0::int)) ! (r - nat (pm_y sMap)) ! (c - nat (pm_x sMap))\<bar>
                      else layer_before big10 (Some ''Collision'') ! r ! c)"
      by (simp add: big10)
    show "d' ! r ! c = collision_with_hole ! r ! c"
    proof (cases "in_rect sMap r c")
      case True
      with inr have k: "r - 3 < 4" "c - 2 < 4" by linarith+
      from cell True have "d' ! r ! c = \<bar>replicate 4 (replicate 4 (0::int)) ! (r - 3) ! (c - 2)\<bar>"
        by (simp add: pos)
      also have "\<dots> = 0" using k by simp
      finally show ?thesis
        using True inr collision_with_hole_nth [OF r c] by simp
    next
      case False
      with cell have "d' ! r ! c = replicate 10 (replicate 10 (2::int)) ! r ! c"
        by (simp add: before)
      also have "\<dots> = 2" using r c by simp
      finally show ?thesis
        using False inr collision_with_hole_nth [OF r c] by simp
    qed
  qed
  with m show "map_of (bm_layers big') (Some ''Collision'') = Some collision_with_hole" by simp
qed

theorem collision_layer_example_witness:
  "BigMap_init 10 10 ''world''
     = Inr \<lparr>bm_height = 10, bm_width = 10, bm_name = ''world'',
            bm_layers = [(Some ''Collision'', replicate 10 (replicate 10 2))],
            bm_objects = [], bm_tileSets = []\<rparr>
   \<and> pm_x empty_collision_map = 2 \<and> pm_y empty_collision_map = 3
   \<and> pm_width empty_collision_map = 4 \<and> pm_height empty_collision_map = 4
   \<and> wf_small empty_collision_map
   \<and> map_of (pm_layers empty_collision_map) (Some ''Collision'') = Some (replicate 4 (replicate 4 0))
   \<and> map (py_int_opt \<circ> snd) (pm_tileSets empty_collision_map) = [Inr 1, Inr 2]
   \<and> (\<exists>big' sMap'.
         putMap \<lparr>bm_height = 10, bm_width = 10, bm_name = ''world'',
            bm_layers = [(Some ''Collision'', replicate 10 (replicate 10 2))],
            bm_objects = [], bm_tileSets = []\<rparr> empty_collision_map = Inr (big', sMap')
         \<and> map_of (bm_layers big') (Some ''Collision'') = Some collision_with_hole)"
proof -
  let ?b = "\<lparr>bm_height = 10, bm_width = 10, bm_name = ''world'',
            bm_layers = [(Some ''Collision'', replicate 10 (replicate 10 2))],
            bm_objects = [], bm_tileSets = []\<rparr>"
  have i: "BigMap_init 10 10 ''world'' = Inr ?b" by (simp add: BigMap_init_layers)
  have w: "wf_small empty_collision_map" by code_simp
  have z: "map_of (pm_layers empty_collision_map) (Some ''Collision'') = Some (replicate 4 (replicate 4 0))"
    by code_simp
  have pos: "pm_x empty_collision_map = 2" "pm_y empty_collision_map = 3"
    "pm_width empty_collision_map = 4" "pm_height empty_collision_map = 4"
    by (simp_all add: empty_collision_map_def small_map_def)
  have "py_int ''1'' = Inr 1" "py_int ''2'' = Inr 2" by code_simp+
  then have g: "\<forall>(p, gid) \<in> set (pm_tileSets empty_collision_map). \<forall>i. py_int_opt gid = Inr i \<longrightarrow> 1 \<le> i"
    by (simp add: empty_collision_map_def small_map_def py_int_opt_def)
  have "map_sum id (\<lambda>_. ()) (putMap ?b empty_collision_map) = Inr ()" by code_simp
  then obtain b' s' where p: "putMap ?b empty_collision_map = Inr (b', s')"
    by (cases "putMap ?b empty_collision_map") auto
  from collision_layer_example [of 10 10 "''world''" ?b empty_collision_map b' s']
    i w z pos g p
  have "map_of (bm_layers b') (Some ''Collision'') = Some collision_with_hole" by blast
  moreover have "map (py_int_opt \<circ> snd) (pm_tileSets empty_collision_map) = [Inr 1, Inr 2]"
    by code_simp
  ultimately show ?thesis using i w z pos p by blast
qed

subsection \<open>The loader\<close>

lemma get_set_attrib: "get (set_attrib e k v) k' = (if k' = k then Some v else get e k')"
  by (simp add: get_def set_attrib_def update_conv')

lemma set_attrib_sel:
  "el_tag (set_attrib e k v) = el_tag e" "el_text (set_attrib e k v) = el_text e"
  "el_children (set_attrib e k v) = el_children e"
  by (simp_all add: set_attrib_def)

lemma handleObject_Inr:
  assumes "handleObject x y obj = Inr obj'"
  shows "(\<exists>originalX originalY.
            py_int_opt (get obj ''x'') = Inr originalX \<and> py_int_opt (get obj ''y'') = Inr originalY \<and>
            py_int_opt (get obj' ''x'') = Inr (originalX + 32 * x) \<and>
            py_int_opt (get obj' ''y'') = Inr (originalY + 32 * y))
       \<and> (\<forall>k. k \<noteq> ''x'' \<and> k \<noteq> ''y'' \<longrightarrow> get obj' k = get obj k)
       \<and> el_tag obj' = el_tag obj \<and> el_text obj' = el_text obj \<and> el_children obj' = el_children obj"
proof -
  from assms obtain vx vy where
    vx: "py_int_opt (get obj ''x'') = Inr vx"
    and vy: "py_int_opt (get (set_attrib obj ''x'' (py_str (vx + 32 * x))) ''y'') = Inr vy"
    and o': "obj' = set_attrib (set_attrib obj ''x'' (py_str (vx + 32 * x))) ''y'' (py_str (vy + 32 * y))"
    by (auto simp: handleObject_def Let_def split: sum.splits)
  have vy': "py_int_opt (get obj ''y'') = Inr vy"
    using vy by (simp add: get_set_attrib)
  show ?thesis
    using vx vy' by (simp add: o' get_set_attrib py_int_opt_def py_int_py_str set_attrib_sel)
qed

lemma iter_Element:
  "iter (Element t a tx cs) tag
     = (if t = tag then [Element t a tx cs] else []) @ concat (map (\<lambda>c. iter c tag) cs)"
  by (simp add: iter_def filter_concat comp_def)

lemma get_Element: "get (Element t a tx cs) k = map_of a k"
  by (simp add: get_def)

text \<open>Where no \<^verbatim>\<open>object\<close> element lies, the loop changes nothing.\<close>

lemma rewrite_no_object:
  "rewrite_objects x y e = Inr e' \<Longrightarrow> iter e ''object'' = [] \<Longrightarrow> e' = e"
  "rewrite_children x y cs = Inr cs' \<Longrightarrow> \<forall>c \<in> set cs. iter c ''object'' = [] \<Longrightarrow> cs' = cs"
proof (induction x y e and x y cs arbitrary: e' and cs' rule: rewrite_objects_rewrite_children.induct)
  case (1 x y t a tx cs)
  from "1.prems"(2) have t: "t \<noteq> ''object''" and cs: "\<forall>c \<in> set cs. iter c ''object'' = []"
    by (auto simp: iter_Element split: if_splits)
  from "1.prems"(1) t obtain cs' where c: "rewrite_children x y cs = Inr cs'"
    and e': "e' = Element t a tx cs'"
    by (auto split: sum.splits)
  from "1.IH" [OF _ c cs] t have "cs' = cs" by simp
  then show ?case by (simp add: e')
next
  case (2 x y)
  then show ?case by simp
next
  case (3 x y c cs)
  from "3.prems"(1) obtain c' cs1 where c: "rewrite_objects x y c = Inr c'"
    and cs: "rewrite_children x y cs = Inr cs1" and r: "cs' = c' # cs1"
    by (auto split: sum.splits)
  from "3.IH"(1) [OF c] "3.prems"(2) have "c' = c" by simp
  moreover from "3.IH"(2) [OF c cs] "3.prems"(2) have "cs1 = cs" by simp
  ultimately show ?case by (simp add: r)
qed

text \<open>
  The \<^verbatim>\<open>object\<close> elements of the tree that the loop leaves are those of the tree it
  found, in the same order, each one shifted.
\<close>

lemma rewrite_gives_shifted:
  "rewrite_objects x y e = Inr e' \<Longrightarrow>
     list_all2 (shifted x y) (iter e ''object'') (iter e' ''object'')"
  "rewrite_children x y cs = Inr cs' \<Longrightarrow>
     list_all2 (shifted x y) (concat (map (\<lambda>c. iter c ''object'') cs))
       (concat (map (\<lambda>c. iter c ''object'') cs'))"
proof (induction x y e and x y cs arbitrary: e' and cs' rule: rewrite_objects_rewrite_children.induct)
  case (1 x y t a tx cs)
  let ?e = "Element t a tx cs"
  from "1.prems" obtain obj cs' where
    o: "(if t = ''object'' then handleObject x y ?e else Inr ?e) = Inr obj"
    and c: "rewrite_children x y cs = Inr cs'"
    and e': "e' = Element (el_tag obj) (el_attrib obj) (el_text obj) cs'"
    by (auto split: sum.splits)
  have tag: "el_tag obj = t"
    using o handleObject_Inr [of x y ?e obj] by (auto split: if_splits)
  have kids: "list_all2 (shifted x y) (concat (map (\<lambda>c. iter c ''object'') cs))
       (concat (map (\<lambda>c. iter c ''object'') cs'))"
    using "1.IH" [OF o c] .
  show ?case
  proof (cases "t = ''object''")
    case False
    then show ?thesis using kids by (simp add: e' tag iter_Element)
  next
    case True
    with o have h: "handleObject x y ?e = Inr obj" by simp
    note f = handleObject_Inr [OF h]
    have same: "cs' = cs" if "\<forall>c \<in> set cs. iter c ''object'' = []"
      using rewrite_no_object(2) [OF c that] .
    have "shifted x y ?e (Element (el_tag obj) (el_attrib obj) (el_text obj) cs')"
      unfolding shifted_def using f same by (simp add: get_def)
    then show ?thesis using kids True by (simp add: e' tag iter_Element)
  qed
next
  case (2 x y)
  then show ?case by simp
next
  case (3 x y c cs)
  from "3.prems" obtain c' cs1 where c: "rewrite_objects x y c = Inr c'"
    and cs: "rewrite_children x y cs = Inr cs1" and r: "cs' = c' # cs1"
    by (auto split: sum.splits)
  from "3.IH"(1) [OF c] "3.IH"(2) [OF c cs] show ?case
    by (simp add: r list_all2_appendI)
qed

lemma handleObject_returns:
  assumes "py_int_opt (get obj ''x'') = Inr vx" "py_int_opt (get obj ''y'') = Inr vy"
  shows "\<exists>obj'. handleObject x y obj = Inr obj'"
  using assms by (simp add: handleObject_def Let_def get_set_attrib)

lemma rewrite_objects_returns:
  "\<forall>obj \<in> set (iter e ''object''). \<exists>vx vy.
       py_int_opt (get obj ''x'') = Inr vx \<and> py_int_opt (get obj ''y'') = Inr vy
     \<Longrightarrow> \<exists>e'. rewrite_objects x y e = Inr e'"
  "\<forall>obj \<in> set (concat (map (\<lambda>c. iter c ''object'') cs)). \<exists>vx vy.
       py_int_opt (get obj ''x'') = Inr vx \<and> py_int_opt (get obj ''y'') = Inr vy
     \<Longrightarrow> \<exists>cs'. rewrite_children x y cs = Inr cs'"
proof (induction x y e and x y cs rule: rewrite_objects_rewrite_children.induct)
  case (1 x y t a tx cs)
  let ?e = "Element t a tx cs"
  have "\<exists>obj. (if t = ''object'' then handleObject x y ?e else Inr ?e) = Inr obj"
  proof (cases "t = ''object''")
    case True
    with "1.prems" obtain vx vy where
      "py_int_opt (get ?e ''x'') = Inr vx" "py_int_opt (get ?e ''y'') = Inr vy"
      by (auto simp: iter_Element)
    from handleObject_returns [OF this] True show ?thesis by simp
  next
    case False
    then show ?thesis by simp
  qed
  then obtain obj where o: "(if t = ''object'' then handleObject x y ?e else Inr ?e) = Inr obj" ..
  from "1.prems" have "\<forall>obj \<in> set (concat (map (\<lambda>c. iter c ''object'') cs)). \<exists>vx vy.
       py_int_opt (get obj ''x'') = Inr vx \<and> py_int_opt (get obj ''y'') = Inr vy"
    by (simp add: iter_Element)
  from "1.IH" [OF o this] obtain cs' where "rewrite_children x y cs = Inr cs'" ..
  with o show ?case by simp
next
  case (2 x y)
  show ?case by simp
next
  case (3 x y c cs)
  from "3.prems" have "\<forall>obj \<in> set (iter c ''object''). \<exists>vx vy.
       py_int_opt (get obj ''x'') = Inr vx \<and> py_int_opt (get obj ''y'') = Inr vy"
    by simp
  from "3.IH"(1) [OF this] obtain c' where c: "rewrite_objects x y c = Inr c'" ..
  from "3.prems" have "\<forall>obj \<in> set (concat (map (\<lambda>c. iter c ''object'') cs)). \<exists>vx vy.
       py_int_opt (get obj ''x'') = Inr vx \<and> py_int_opt (get obj ''y'') = Inr vy"
    by simp
  from "3.IH"(2) [OF c this] obtain cs' where "rewrite_children x y cs = Inr cs'" ..
  with c show ?case by simp
qed

text \<open>
  The loop returns when every \<^verbatim>\<open>object\<close> element of the tree has an \<^verbatim>\<open>x\<close> and a
  \<^verbatim>\<open>y\<close> that \<^verbatim>\<open>int\<close> reads.
\<close>

lemma handleObjects_returns:
  assumes "\<forall>obj \<in> set (iter (pm_root self) ''object''). \<exists>vx vy.
       py_int_opt (get obj ''x'') = Inr vx \<and> py_int_opt (get obj ''y'') = Inr vy"
  shows "\<exists>self'. handleObjects self = Inr self'"
proof -
  from rewrite_objects_returns(1) [OF assms] obtain root' where
    "rewrite_objects (pm_x self) (pm_y self) (pm_root self) = Inr root'" ..
  then show ?thesis by (simp add: handleObjects_def)
qed

text \<open>
  \<^verbatim>\<open>ParseMap.__init__\<close> calls \<^verbatim>\<open>handleObjects\<close> last, on the tree of the file, with the
  offsets of the map and no object yet.
\<close>

lemma handleTileSets_frame:
  "pm_x (handleTileSets self) = pm_x self \<and> pm_y (handleTileSets self) = pm_y self
   \<and> pm_root (handleTileSets self) = pm_root self \<and> pm_objects (handleTileSets self) = pm_objects self
   \<and> pm_layers (handleTileSets self) = pm_layers self \<and> pm_width (handleTileSets self) = pm_width self"
proof -
  have "pm_x (fold f ts self) = pm_x self \<and> pm_y (fold f ts self) = pm_y self
   \<and> pm_root (fold f ts self) = pm_root self \<and> pm_objects (fold f ts self) = pm_objects self
   \<and> pm_layers (fold f ts self) = pm_layers self \<and> pm_width (fold f ts self) = pm_width self"
    if "f = (\<lambda>tileSet s. s\<lparr>pm_tileSets := AList.update (get tileSet ''source'') (get tileSet ''firstgid'') (pm_tileSets s)\<rparr>)"
    for f ts
    unfolding that by (induction ts arbitrary: self) simp_all
  then show ?thesis unfolding handleTileSets_def by blast
qed

lemma handleLayer_frame:
  assumes "handleLayer layer self = Inr self'"
  shows "pm_x self' = pm_x self \<and> pm_y self' = pm_y self \<and> pm_root self' = pm_root self
         \<and> pm_objects self' = pm_objects self"
  using assms by (auto simp: handleLayer_def Let_def split: option.splits sum.splits)

lemma handleLayers_frame:
  assumes "handleLayers self = Inr self'"
  shows "pm_x self' = pm_x self \<and> pm_y self' = pm_y self \<and> pm_root self' = pm_root self
         \<and> pm_objects self' = pm_objects self"
proof -
  have "pm_x self' = pm_x self \<and> pm_y self' = pm_y self \<and> pm_root self' = pm_root self
         \<and> pm_objects self' = pm_objects self"
    by (rule fold_err_inv [OF assms [unfolded handleLayers_def],
          where P = "\<lambda>t. pm_x t = pm_x self \<and> pm_y t = pm_y self \<and> pm_root t = pm_root self
         \<and> pm_objects t = pm_objects self"])
       (auto dest: handleLayer_frame)
  then show ?thesis .
qed

lemma ParseMap_init_handleObjects:
  assumes "ParseMap_init root offsetX offsetY = Inr sMap"
  shows "\<exists>self. handleObjects self = Inr sMap \<and> pm_x self = offsetX \<and> pm_y self = offsetY
            \<and> pm_root self = root \<and> pm_objects self = []"
proof -
  from assms obtain w h s1 where
    1: "handleLayers (handleTileSets \<lparr>pm_x = offsetX, pm_y = offsetY, pm_root = root, pm_width = w,
          pm_height = h, pm_layers = [], pm_tileSets = [], pm_objects = []\<rparr>) = Inr s1"
    and 2: "handleObjects s1 = Inr sMap"
    by (auto simp: ParseMap_init_def Let_def split: sum.splits)
  let ?s0 = "\<lparr>pm_x = offsetX, pm_y = offsetY, pm_root = root, pm_width = w,
          pm_height = h, pm_layers = [], pm_tileSets = [], pm_objects = []\<rparr>"
  from handleLayers_frame [OF 1] handleTileSets_frame [of ?s0]
  have "pm_x s1 = offsetX" "pm_y s1 = offsetY" "pm_root s1 = root" "pm_objects s1 = []"
    by simp_all
  with 2 show ?thesis by blast
qed

text \<open>
  Claim C9. When \<^verbatim>\<open>handleObjects\<close> returns, the objects it has added to the map are the
  \<^verbatim>\<open>object\<close> elements of the tree in document order, each with its \<^verbatim>\<open>x\<close> equal to the
  original \<^verbatim>\<open>x\<close> plus 32 times the offset in \<^verbatim>\<open>x\<close> of the map, its \<^verbatim>\<open>y\<close> likewise,
  and every other attribute, the tag and the text unchanged; the children of an object are
  unchanged too when no \<^verbatim>\<open>object\<close> element lies inside it.
\<close>

theorem objects_shifted:
  assumes "handleObjects self = Inr self'"
  shows "\<exists>new. pm_objects self' = pm_objects self @ new
             \<and> list_all2 (shifted (pm_x self) (pm_y self)) (iter (pm_root self) ''object'') new"
proof -
  from assms obtain root' where
    r: "rewrite_objects (pm_x self) (pm_y self) (pm_root self) = Inr root'"
    and s': "self' = self\<lparr>pm_root := root', pm_objects := pm_objects self @ iter root' ''object''\<rparr>"
    by (auto simp: handleObjects_def split: sum.splits)
  from rewrite_gives_shifted(1) [OF r] s' show ?thesis by simp
qed

theorem objects_shifted_witness:
  "map_sum id pm_objects (handleObjects ((small_map 2 3 3 2 [] [])\<lparr>pm_root := village_root\<rparr>))
     = Inr [Element ''object'' [(''name'', ''chest''), (''x'', ''128''), (''y'', ''192'')] None [],
            Element ''object'' [(''x'', ''64''), (''y'', ''64''), (''type'', ''warp'')] None
              [Element ''properties'' [] None []]]
   \<and> map_sum id pm_objects (ParseMap_init village_root 2 3)
       = map_sum id pm_objects (handleObjects ((small_map 2 3 3 2 [] [])\<lparr>pm_root := village_root\<rparr>))
   \<and> list_all2 (shifted 2 3) (iter village_root ''object'')
        [Element ''object'' [(''name'', ''chest''), (''x'', ''128''), (''y'', ''192'')] None [],
         Element ''object'' [(''x'', ''64''), (''y'', ''64''), (''type'', ''warp'')] None
           [Element ''properties'' [] None []]]
   \<and> map_sum id pm_objects (handleObjects ((small_map 1 1 1 1 [] [])\<lparr>pm_root := nested_root\<rparr>))
     = Inr [Element ''object'' [(''x'', ''32''), (''y'', ''32'')] None
              [Element ''object'' [(''x'', ''42''), (''y'', ''52'')] None []],
            Element ''object'' [(''x'', ''42''), (''y'', ''52'')] None []]
   \<and> list_all2 (shifted 1 1) (iter nested_root ''object'')
        [Element ''object'' [(''x'', ''32''), (''y'', ''32'')] None
           [Element ''object'' [(''x'', ''42''), (''y'', ''52'')] None []],
         Element ''object'' [(''x'', ''42''), (''y'', ''52'')] None []]"
proof -
  let ?self = "(small_map 2 3 3 2 [] [])\<lparr>pm_root := village_root\<rparr>"
  let ?nested = "(small_map 1 1 1 1 [] [])\<lparr>pm_root := nested_root\<rparr>"
  have e: "map_sum id pm_objects (handleObjects ?self)
     = Inr [Element ''object'' [(''name'', ''chest''), (''x'', ''128''), (''y'', ''192'')] None [],
            Element ''object'' [(''x'', ''64''), (''y'', ''64''), (''type'', ''warp'')] None
              [Element ''properties'' [] None []]]"
    by code_simp
  have i: "map_sum id pm_objects (ParseMap_init village_root 2 3)
       = map_sum id pm_objects (handleObjects ?self)"
    by code_simp
  have n: "map_sum id pm_objects (handleObjects ?nested)
     = Inr [Element ''object'' [(''x'', ''32''), (''y'', ''32'')] None
              [Element ''object'' [(''x'', ''42''), (''y'', ''52'')] None []],
            Element ''object'' [(''x'', ''42''), (''y'', ''52'')] None []]"
    by code_simp
  from e obtain s1 where p: "handleObjects ?self = Inr s1"
    by (cases "handleObjects ?self") auto
  from n obtain s2 where q: "handleObjects ?nested = Inr s2"
    by (cases "handleObjects ?nested") auto
  have f: "pm_objects ?self = []" "pm_x ?self = 2" "pm_y ?self = 3" "pm_root ?self = village_root"
    "pm_objects ?nested = []" "pm_x ?nested = 1" "pm_y ?nested = 1" "pm_root ?nested = nested_root"
    by (simp_all add: small_map_def)
  from objects_shifted [OF p] objects_shifted [OF q] e n p q i show ?thesis
    unfolding f by simp
qed

lemma fold_err_fails:
  assumes "x \<in> set xs" "\<And>s. \<exists>e. f x s = Inl e"
  shows "\<exists>e. fold_err f xs s = Inl e"
  using assms(1)
proof (induction xs arbitrary: s)
  case Nil
  then show ?case by simp
next
  case (Cons y ys)
  show ?case
  proof (cases "f y s")
    case (Inl e)
    then show ?thesis by simp
  next
    case (Inr s1)
    with assms(2) [of s] have "x \<noteq> y" by auto
    with Cons.prems have "x \<in> set ys" by simp
    from Cons.IH [OF this, of s1] Inr show ?thesis by simp
  qed
qed

lemma fold_err_commute:
  assumes "\<And>x s. f x (u s) = map_sum id u (f x s)"
  shows "fold_err f xs (u s) = map_sum id u (fold_err f xs s)"
proof (induction xs arbitrary: s)
  case Nil
  show ?case by simp
next
  case (Cons x xs)
  show ?case
  proof (cases "f x s")
    case (Inl e)
    then show ?thesis by (simp add: assms)
  next
    case (Inr s1)
    then show ?thesis by (simp add: assms Cons.IH)
  qed
qed

lemma genfromtxt_ragged:
  assumes "l \<in> set (csv_lines data)"
    "length (split_on (CHR '','') l) \<noteq> length (split_on (CHR '','') (hd (csv_lines data)))"
  shows "genfromtxt data = Inl ValueError"
proof -
  let ?rows = "map (split_on (CHR '','')) (csv_lines data)"
  have ne: "csv_lines data \<noteq> []" using assms(1) by auto
  then have "hd ?rows = split_on (CHR '','') (hd (csv_lines data))" by (simp add: hd_map)
  with assms have "\<not> list_all (\<lambda>r. length r = length (hd ?rows)) ?rows"
    by (auto simp: list_all_iff)
  then show ?thesis by (simp add: genfromtxt_def Let_def)
qed

lemma handleLayer_width:
  "handleLayer layer (self\<lparr>pm_width := w\<rparr>) = map_sum id (\<lambda>s. s\<lparr>pm_width := w\<rparr>) (handleLayer layer self)"
  by (simp add: handleLayer_def Let_def split: option.splits sum.splits)

lemma handleLayers_width:
  "handleLayers (self\<lparr>pm_width := w\<rparr>) = map_sum id (\<lambda>s. s\<lparr>pm_width := w\<rparr>) (handleLayers self)"
  unfolding handleLayers_def
  using fold_err_commute [of handleLayer "\<lambda>s. s\<lparr>pm_width := w\<rparr>", OF handleLayer_width]
  by simp

text \<open>
  Claim C6, as amended. The layers that \<^verbatim>\<open>handleLayers\<close> decodes do not depend on the
  declared width of the map: the decoder never reads it. The loader does fail on a layer
  whose rows have unequal numbers of cells (\<^verbatim>\<open>genfromtxt\<close> raises), on a layer without a
  \<^verbatim>\<open>data\<close> element, and on a map without a \<^verbatim>\<open>width\<close> attribute.
\<close>

theorem decoder_ignores_width:
  "handleLayers (self\<lparr>pm_width := w\<rparr>) = map_sum id (\<lambda>s. s\<lparr>pm_width := w\<rparr>) (handleLayers self)
   \<and> (layer \<in> set (findall (pm_root self) ''layer'') \<and> find_child layer ''data'' = Some d \<and>
        el_text d = Some csv \<and> l \<in> set (csv_lines (replace_comma_newline csv)) \<and>
        length (split_on (CHR '','') l)
          \<noteq> length (split_on (CHR '','') (hd (csv_lines (replace_comma_newline csv))))
        \<longrightarrow> (\<exists>e. handleLayers self = Inl e))
   \<and> (layer \<in> set (findall (pm_root self) ''layer'') \<and> find_child layer ''data'' = None
        \<longrightarrow> (\<exists>e. handleLayers self = Inl e))
   \<and> (map_of (el_attrib root) ''width'' = None \<longrightarrow> ParseMap_init root x y = Inl KeyError)"
proof (intro conjI impI)
  show "handleLayers (self\<lparr>pm_width := w\<rparr>) = map_sum id (\<lambda>s. s\<lparr>pm_width := w\<rparr>) (handleLayers self)"
    by (rule handleLayers_width)
next
  assume a: "layer \<in> set (findall (pm_root self) ''layer'') \<and> find_child layer ''data'' = Some d \<and>
        el_text d = Some csv \<and> l \<in> set (csv_lines (replace_comma_newline csv)) \<and>
        length (split_on (CHR '','') l)
          \<noteq> length (split_on (CHR '','') (hd (csv_lines (replace_comma_newline csv))))"
  then have "genfromtxt (replace_comma_newline csv) = Inl ValueError"
    by (intro genfromtxt_ragged [of l]) simp_all
  with a have "\<And>s. \<exists>e. handleLayer layer s = Inl e"
    by (simp add: handleLayer_def)
  with a show "\<exists>e. handleLayers self = Inl e"
    unfolding handleLayers_def by (intro fold_err_fails [of layer]) simp_all
next
  assume a: "layer \<in> set (findall (pm_root self) ''layer'') \<and> find_child layer ''data'' = None"
  then have "\<And>s. \<exists>e. handleLayer layer s = Inl e"
    by (simp add: handleLayer_def)
  with a show "\<exists>e. handleLayers self = Inl e"
    unfolding handleLayers_def by (intro fold_err_fails [of layer]) simp_all
next
  assume "map_of (el_attrib root) ''width'' = None"
  then show "ParseMap_init root x y = Inl KeyError"
    by (simp add: ParseMap_init_def attrib_item_def)
qed

theorem decoder_ignores_width_witness:
  "ground_layer ragged_text \<in> set (findall (pm_root ((small_map 0 0 3 2 [] [])\<lparr>pm_root := ragged_root\<rparr>)) ''layer'')
   \<and> find_child (ground_layer ragged_text) ''data''
       = Some (Element ''data'' [(''encoding'', ''csv'')] (Some ragged_text) [])
   \<and> ''4,5'' \<in> set (csv_lines (replace_comma_newline ragged_text))
   \<and> length (split_on (CHR '','') ''4,5'')
       \<noteq> length (split_on (CHR '','') (hd (csv_lines (replace_comma_newline ragged_text))))
   \<and> (\<exists>e. handleLayers ((small_map 0 0 3 2 [] [])\<lparr>pm_root := ragged_root\<rparr>) = Inl e)
   \<and> Element ''layer'' [] None []
       \<in> set (findall (pm_root ((small_map 0 0 3 2 [] [])\<lparr>pm_root := Element ''map'' [] None [Element ''layer'' [] None []]\<rparr>)) ''layer'')
   \<and> find_child (Element ''layer'' [] None []) ''data'' = None
   \<and> (\<exists>e. handleLayers ((small_map 0 0 3 2 [] [])\<lparr>pm_root := Element ''map'' [] None [Element ''layer'' [] None []]\<rparr>) = Inl e)
   \<and> map_of (el_attrib no_width_root) ''width'' = None
   \<and> ParseMap_init no_width_root 0 0 = Inl KeyError"
proof -
  let ?self = "(small_map 0 0 3 2 [] [])\<lparr>pm_root := ragged_root\<rparr>"
  let ?self2 = "(small_map 0 0 3 2 [] [])\<lparr>pm_root := Element ''map'' [] None [Element ''layer'' [] None []]\<rparr>"
  let ?d = "Element ''data'' [(''encoding'', ''csv'')] (Some ragged_text) []"
  have 1: "ground_layer ragged_text \<in> set (findall (pm_root ?self) ''layer'')" by code_simp
  have 2: "find_child (ground_layer ragged_text) ''data'' = Some ?d" by code_simp
  have 3: "el_text ?d = Some ragged_text" by simp
  have 4: "''4,5'' \<in> set (csv_lines (replace_comma_newline ragged_text))" by code_simp
  have 5: "length (split_on (CHR '','') ''4,5'')
       \<noteq> length (split_on (CHR '','') (hd (csv_lines (replace_comma_newline ragged_text))))"
    by code_simp
  have 6: "Element ''layer'' [] None [] \<in> set (findall (pm_root ?self2) ''layer'')" by code_simp
  have 7: "find_child (Element ''layer'' [] None []) ''data'' = None" by code_simp
  have 8: "map_of (el_attrib no_width_root) ''width'' = None" by code_simp
  from decoder_ignores_width [where self = "?self" and layer = "ground_layer ragged_text" and d = "?d"
      and csv = ragged_text and l = "''4,5''"] 1 2 3 4 5
  have a: "\<exists>e. handleLayers ?self = Inl e" by blast
  from decoder_ignores_width [where self = "?self2" and layer = "Element ''layer'' [] None []"] 6 7
  have b: "\<exists>e. handleLayers ?self2 = Inl e" by blast
  from decoder_ignores_width [where root = no_width_root and x = 0 and y = 0] 8
  have c: "ParseMap_init no_width_root 0 0 = Inl KeyError" by blast
  from 1 2 4 5 6 7 8 a b c show ?thesis by blast
qed

text \<open>
  The claim C6 as stated fails: the map declares the width 4, each row of its layer has
  three cells, and the loader returns the layer.
\<close>

theorem decoder_accepts_other_width_counterexample:
  "map_sum id pm_width (ParseMap_init narrow_root 0 0) = Inr 4
   \<and> map_sum id pm_layers (ParseMap_init narrow_root 0 0) = Inr [(Some ''Ground'', [[1, 2, 3], [4, 5, 6]])]
   \<and> ncols [[1, 2, 3], [4, 5, 6]] = 3"
  by code_simp

end
